theory Spec2Isabelle
  imports Complex_Main "HOL-Library.Word" "HOL-Library.Multiset"
begin

section \<open>JavaScript strings\<close>

text \<open>
  A JavaScript string is a sequence of UTF-16 code units. The fixed Japanese texts of the
  source are written out below as their code units.
\<close>

type_synonym jschar = "16 word"
type_synonym jsstring = "jschar list"

text \<open>
  The characters removed by \<^verbatim>\<open>String.prototype.trim\<close> and matched by \<^verbatim>\<open>\s\<close> in a regular
  expression: ECMAScript WhiteSpace and LineTerminator.
\<close>

definition is_space :: "jschar \<Rightarrow> bool" where
  "is_space c \<longleftrightarrow>
     c \<in> set [0x0009, 0x000A, 0x000B, 0x000C, 0x000D, 0x0020, 0x00A0, 0x1680,
               0x2000, 0x2001, 0x2002, 0x2003, 0x2004, 0x2005, 0x2006, 0x2007,
               0x2008, 0x2009, 0x200A, 0x2028, 0x2029, 0x202F, 0x205F, 0x3000, 0xFEFF]"

definition trim :: "jsstring \<Rightarrow> jsstring" where
  "trim s = rev (dropWhile is_space (rev (dropWhile is_space s)))"

text \<open>Truthiness of a string: only the empty string is falsy.\<close>

definition truthy_str :: "jsstring option \<Rightarrow> bool" where
  "truthy_str v = (case v of None \<Rightarrow> False | Some s \<Rightarrow> s \<noteq> [])"

text \<open>\<^verbatim>\<open>v || d\<close> for a string-or-undefined \<open>v\<close>.\<close>

definition str_or :: "jsstring option \<Rightarrow> jsstring \<Rightarrow> jsstring" where
  "str_or v d = (case v of None \<Rightarrow> d | Some s \<Rightarrow> if s \<noteq> [] then s else d)"

section \<open>History sanitization in chatWithLumi\<close>

datatype role = User | Model

text \<open>
  The value found at \<^verbatim>\<open>h.text\<close>. The declared type is string, but the loop tests
  \<^verbatim>\<open>typeof h.text !== 'string'\<close>, so anything else (undefined, null, a number, an
  object) is \<open>TextOther\<close>.
\<close>

datatype jstext = TextStr jsstring | TextOther

record history_entry =
  h_role :: role
  h_text :: jstext

text \<open>An entry of \<^verbatim>\<open>sanitizedHistory\<close>: \<^verbatim>\<open>{ role, parts: [{ text }] }\<close>.\<close>

record content =
  c_role :: role
  c_text :: jsstring

text \<open>\<^verbatim>\<open>history.slice(-n)\<close>: the last \<open>n\<close> elements.\<close>

definition slice_last :: "nat \<Rightarrow> 'a list \<Rightarrow> 'a list" where
  "slice_last n xs = drop (length xs - n) xs"

text \<open>
  \<^verbatim>\<open>!h.text || typeof h.text !== 'string' || h.text.trim() === ""\<close>
\<close>

definition skip_text :: "jstext \<Rightarrow> bool" where
  "skip_text t = (case t of TextOther \<Rightarrow> True | TextStr s \<Rightarrow> s = [] \<or> trim s = [])"

definition text_of :: "jstext \<Rightarrow> jsstring" where
  "text_of t = (case t of TextOther \<Rightarrow> [] | TextStr s \<Rightarrow> s)"

text \<open>
  The \<^verbatim>\<open>for (const h of sourceHistory)\<close> loop with its two variables, the array
  \<^verbatim>\<open>sanitizedHistory\<close> and \<^verbatim>\<open>lastRole\<close> (initially null).
\<close>

fun sanitize_loop :: "content list \<Rightarrow> role option \<Rightarrow> history_entry list \<Rightarrow> content list" where
  "sanitize_loop sanitizedHistory lastRole [] = sanitizedHistory"
| "sanitize_loop sanitizedHistory lastRole (h # hs) =
     (if skip_text (h_text h) then sanitize_loop sanitizedHistory lastRole hs
      else if Some (h_role h) = lastRole then sanitize_loop sanitizedHistory lastRole hs
      else sanitize_loop
             (sanitizedHistory @ [\<lparr>c_role = h_role h, c_text = text_of (h_text h)\<rparr>])
             (Some (h_role h)) hs)"

text \<open>
  \<^verbatim>\<open>if (sanitizedHistory.length > 0 && sanitizedHistory[sanitizedHistory.length - 1].role === 'user')
    sanitizedHistory.pop();\<close>
\<close>

definition drop_trailing_user :: "content list \<Rightarrow> content list" where
  "drop_trailing_user cs =
     (if length cs > 0 \<and> c_role (last cs) = User then butlast cs else cs)"

definition sanitizeHistory :: "history_entry list \<Rightarrow> content list" where
  "sanitizeHistory history =
     drop_trailing_user (sanitize_loop [] None (slice_last 30 history))"

text \<open>The loop invariant: \<^verbatim>\<open>lastRole\<close> is the role of the last retained entry.\<close>

definition tracks :: "content list \<Rightarrow> role option \<Rightarrow> bool" where
  "tracks cs lastRole \<longleftrightarrow> lastRole = (if cs = [] then None else Some (c_role (last cs)))"

section \<open>Cleaning a response text: cleanJsonString\<close>

definition fence_json :: jsstring where
  "fence_json = [0x0060, 0x0060, 0x0060, 0x006A, 0x0073, 0x006F, 0x006E]"

definition fence :: jsstring where
  "fence = [0x0060, 0x0060, 0x0060]"

definition braces :: jsstring where
  "braces = [0x007B, 0x007D]"

text \<open>
  \<^verbatim>\<open>s.replace(/<marker>\s*/g, '')\<close>: scanning from the left, every occurrence of the marker
  is removed together with the white space that follows it; the scan goes on after the
  removed part.
\<close>

function replace_marker :: "jsstring \<Rightarrow> jsstring \<Rightarrow> jsstring" where
  "replace_marker marker [] = []"
| "replace_marker marker (c # cs) =
     (if marker \<noteq> [] \<and> take (length marker) (c # cs) = marker
      then replace_marker marker (dropWhile is_space (drop (length marker) (c # cs)))
      else c # replace_marker marker cs)"
  by pat_completeness auto
termination
proof (relation "measure (\<lambda>(marker, s). length s)")
  show "wf (measure (\<lambda>(marker, s). length s))" by simp
next
  fix marker :: jsstring and c :: jschar and cs :: jsstring
  assume "marker \<noteq> [] \<and> take (length marker) (c # cs) = marker"
  then have "length (drop (length marker) (c # cs)) < length (c # cs)" by simp
  moreover have "length (dropWhile is_space (drop (length marker) (c # cs)))
                   \<le> length (drop (length marker) (c # cs))"
    by (rule length_dropWhile_le)
  ultimately show "((marker, dropWhile is_space (drop (length marker) (c # cs))), (marker, c # cs))
                     \<in> measure (\<lambda>(marker, s). length s)"
    by simp
next
  fix marker :: jsstring and c :: jschar and cs :: jsstring
  show "((marker, cs), (marker, c # cs)) \<in> measure (\<lambda>(marker, s). length s)" by simp
qed

definition cleanJsonString :: "jsstring \<Rightarrow> jsstring" where
  "cleanJsonString text' =
     (if text' = [] then braces
      else trim (replace_marker fence (replace_marker fence_json text')))"

section \<open>The client: getAiClient\<close>

text \<open>
  \<open>aistudio_apiKey\<close> is the value of
  \<^verbatim>\<open>typeof window !== 'undefined' && window.aistudio?.apiKey\<close> when it is a string, and
  \<open>None\<close> when that expression is false or undefined; \<open>env_apiKey\<close> is
  \<^verbatim>\<open>process.env.NEXT_PUBLIC_GEMINI_API_KEY\<close>.
\<close>

record environment =
  aistudio_apiKey :: "jsstring option"
  env_apiKey :: "jsstring option"

datatype error = ApiKeyRequired

text \<open>The client is represented by the key it was made with.\<close>

definition getAiClient :: "environment \<Rightarrow> error + jsstring" where
  "getAiClient env =
     (let apiKey = (if truthy_str (aistudio_apiKey env) then aistudio_apiKey env
                    else env_apiKey env)
      in case apiKey of
           None \<Rightarrow> Inl ApiKeyRequired
         | Some k \<Rightarrow> if k = [] then Inl ApiKeyRequired else Inr k)"

section \<open>chatWithLumi\<close>

definition ELLIPSIS_TEXT :: jsstring where
  "ELLIPSIS_TEXT = [0x2026, 0x2026]"

definition BLOCKED_PLACEHOLDER :: jsstring where
  "BLOCKED_PLACEHOLDER =
    [0xFF08, 0x8A00, 0x8449, 0x304C, 0x898B, 0x3064, 0x304B, 0x3089, 0x306A, 0x3044, 0x3088,
     0x3046, 0x3060, 0x2026, 0x2026, 0xFF09]"

definition CHAT_ERROR_TEXT :: jsstring where
  "CHAT_ERROR_TEXT =
    [0x601D, 0x8003, 0x56DE, 0x8DEF, 0x306B, 0x30CE, 0x30A4, 0x30BA, 0x304C, 0x8D70, 0x3063,
     0x305F, 0x3088, 0x3046, 0x3060, 0x2026, 0x2026, 0x3082, 0x3046, 0x4E00, 0x5EA6, 0x8A00,
     0x3063, 0x3066, 0x304F, 0x308C, 0x308B, 0x304B, 0xFF1F]"

text \<open>
  What \<^verbatim>\<open>ai.chats.create\<close> followed by \<^verbatim>\<open>chat.sendMessage\<close> does: it throws, or it
  returns a result whose \<^verbatim>\<open>text\<close> is a string or undefined.
\<close>

datatype chat_outcome = ChatThrows | ChatResult "jsstring option"

text \<open>
  The generation capability is the parameter \<open>send\<close>, a function of the sanitized history
  and the message. The system instruction, which is assembled from the profile and the
  date, only determines what is sent and is not represented. The result \<open>Inl e\<close> is the
  rejection of the returned promise with \<open>e\<close>. \<^verbatim>\<open>getAiClient\<close> is called before the
  \<^verbatim>\<open>try\<close> block.
\<close>

definition chatWithLumi ::
  "environment \<Rightarrow> (content list \<Rightarrow> jsstring \<Rightarrow> chat_outcome) \<Rightarrow> history_entry list \<Rightarrow> jsstring
     \<Rightarrow> error + jsstring" where
  "chatWithLumi env send history message =
     (case getAiClient env of
        Inl e \<Rightarrow> Inl e
      | Inr ai \<Rightarrow>
          Inr (case send (sanitizeHistory history) message of
                 ChatThrows \<Rightarrow> CHAT_ERROR_TEXT
               | ChatResult result_text \<Rightarrow>
                   (let text' = cleanJsonString (str_or result_text ELLIPSIS_TEXT)
                    in if trim text' = [] then BLOCKED_PLACEHOLDER else trim text')))"

section \<open>analyzeMeal\<close>

subsection \<open>Numbers\<close>

text \<open>
  A JavaScript number is a double. A finite number is represented by the rational it
  denotes; \<open>NaN\<close> is kept apart, because an invalid date has the time value NaN.
\<close>

datatype jsnum = NaN | Num rat

text \<open>
  \<^verbatim>\<open>Math.round\<close>: the closest integer, a tie going towards plus infinity. The result is
  exact.
\<close>

definition Math_round :: "rat \<Rightarrow> rat" where
  "Math_round x = of_int \<lfloor>x + 1 / 2\<rfloor>"

text \<open>
  The operators \<^verbatim>\<open>*\<close> and \<^verbatim>\<open>/\<close> round the exact result to a double. They are parameters
  of the functions that use them.
\<close>

record arith =
  num_mul :: "rat \<Rightarrow> rat \<Rightarrow> rat"
  num_div :: "rat \<Rightarrow> rat \<Rightarrow> rat"

text \<open>
  What is known of them: a result that is zero is exact, and a result whose size lies in the
  range of the normal doubles is off by at most the unit roundoff, relative to the exact
  result.
\<close>

definition unit_roundoff :: rat where
  "unit_roundoff = 1 / 2 ^ 53"

definition in_range :: "rat \<Rightarrow> bool" where
  "in_range x \<longleftrightarrow> x = 0 \<or> (1 / 2 ^ 1022 \<le> \<bar>x\<bar> \<and> \<bar>x\<bar> < 2 ^ 1023)"

definition accurate :: "arith \<Rightarrow> bool" where
  "accurate ar \<longleftrightarrow>
     (\<forall>x y. in_range (x * y) \<longrightarrow>
        \<bar>num_mul ar x y - x * y\<bar> \<le> unit_roundoff * \<bar>x * y\<bar>) \<and>
     (\<forall>x y. y \<noteq> 0 \<and> in_range (x / y) \<longrightarrow>
        \<bar>num_div ar x y - x / y\<bar> \<le> unit_roundoff * \<bar>x / y\<bar>)"

text \<open>
  Arithmetic without any rounding error. It is what the doubles do whenever the exact
  result is itself a double, as with the small integers of the samples further down.
\<close>

definition exact_arith :: arith where
  "exact_arith = \<lparr>num_mul = (\<lambda>x y. x * y), num_div = (\<lambda>x y. x / y)\<rparr>"

text \<open>
  The doubles themselves. \<open>round_even\<close> is the nearest integer, the even one of two that
  are equally near. A number of magnitude below \<open>2 ^ 53\<close> is doubled until it is at least
  \<open>2 ^ 52\<close>, at most 1074 times, then rounded to an integer and halved as often as it was
  doubled: it keeps 53 significant bits, and fewer when it is below \<open>1 / 2 ^ 1022\<close>. A
  number of magnitude \<open>2 ^ 53\<close> or more is halved instead, at most 971 times. No number
  becomes infinite: where the doubles overflow, at a magnitude that rounds to \<open>2 ^ 1024\<close>
  or more, the result here is still a number; and a quotient by zero is the zero of the
  rationals.
\<close>

definition round_even :: "rat \<Rightarrow> int" where
  "round_even x =
     (let f = \<lfloor>x\<rfloor>; r = x - of_int f
      in if r < 1 / 2 then f else if 1 / 2 < r then f + 1 else if even f then f else f + 1)"

fun round_below :: "nat \<Rightarrow> rat \<Rightarrow> rat" where
  "round_below 0 x = of_int (round_even x)"
| "round_below (Suc n) x =
     (if x < 2 ^ 52 then round_below n (2 * x) / 2 else of_int (round_even x))"

fun round_above :: "nat \<Rightarrow> rat \<Rightarrow> rat" where
  "round_above 0 x = of_int (round_even x)"
| "round_above (Suc n) x =
     (if 2 ^ 53 \<le> x then 2 * round_above n (x / 2) else of_int (round_even x))"

definition double_round :: "rat \<Rightarrow> rat" where
  "double_round x =
     (let a = \<bar>x\<bar>; d = (if a < 2 ^ 53 then round_below 1074 a else round_above 971 a)
      in if x < 0 then - d else d)"

definition double_arith :: arith where
  "double_arith =
     \<lparr>num_mul = (\<lambda>x y. double_round (x * y)), num_div = (\<lambda>x y. double_round (x / y))\<rparr>"

text \<open>
  \<open>near_tenth x m\<close>: the number \<open>m\<close> is \<open>x\<close> rounded to one decimal place, as far as doubles
  allow. There is an integer \<open>k\<close>, the nearest one to ten times \<open>x\<close> up to the rounding
  error of that product, and \<open>m\<close> is \<open>k / 10\<close> up to the rounding error of that quotient.
\<close>

definition near_tenth :: "rat \<Rightarrow> rat \<Rightarrow> bool" where
  "near_tenth x m \<longleftrightarrow>
     (\<exists>k :: int. \<bar>of_int k - x * 10\<bar> \<le> 1 / 2 + unit_roundoff * \<bar>x * 10\<bar> \<and>
                 \<bar>m - of_int k / 10\<bar> \<le> unit_roundoff * \<bar>of_int k / 10\<bar>)"

text \<open>\<^verbatim>\<open>v || 0\<close> for a number-or-undefined \<open>v\<close>.\<close>

definition num_or_zero :: "rat option \<Rightarrow> rat" where
  "num_or_zero v = (case v of None \<Rightarrow> 0 | Some x \<Rightarrow> x)"

subsection \<open>The response of the model\<close>

text \<open>
  The value of \<^verbatim>\<open>JSON.parse\<close>: it throws on text that is not JSON, and it may return null.
  The fields of an object are typed as the response schema types them, and each may be
  missing (\<open>None\<close>; a field holding null is missing as well). A parsed value that is neither
  null nor an object has none of the fields read here, so it is an object with every field
  missing. \<^verbatim>\<open>JSON.parse\<close> itself is a parameter of the functions below.
\<close>

datatype 'a parsed = ParseThrows | ParsedNull | ParsedObj 'a

text \<open>
  What \<^verbatim>\<open>ai.models.generateContent\<close> does: it throws, or it returns a response whose
  \<^verbatim>\<open>text\<close> is a string or undefined.
\<close>

datatype gen_outcome = GenThrows | GenText "jsstring option"

record meal_data =
  md_name :: "jsstring option"
  md_calories :: "rat option"
  md_protein :: "rat option"
  md_fat :: "rat option"
  md_carbs :: "rat option"

record meal_response =
  is_food_related :: "bool option"
  feedback :: "jsstring option"
  confirmation_message :: "jsstring option"
  target_date :: "jsstring option"
  meal_data :: "meal_data option"

record MealLog =
  ml_id :: jsstring
  ml_timestamp :: jsnum
  ml_name :: jsstring
  ml_calories :: rat
  ml_protein :: rat
  ml_fat :: rat
  ml_carbs :: rat
  ml_imageUrl :: "jsstring option"
  ml_imagePath :: "jsstring option"
  ml_confirmationMessage :: "jsstring option"

text \<open>The returned object \<^verbatim>\<open>{ text, meal }\<close>; a null meal is \<open>None\<close>.\<close>

record meal_analysis =
  a_text :: jsstring
  a_meal :: "MealLog option"

subsection \<open>Fixed texts\<close>

definition PARSE_FAILURE_TEXT :: jsstring where
  "PARSE_FAILURE_TEXT =
    [0x30C7, 0x30FC, 0x30BF, 0x306E, 0x89E3, 0x6790, 0x306B, 0x5931, 0x6557, 0x3057, 0x307E,
     0x3057, 0x305F, 0x3002, 0x3082, 0x3046, 0x4E00, 0x5EA6, 0x8A66, 0x3057, 0x3066, 0x304F,
     0x3060, 0x3055, 0x3044, 0x3002]"

definition TRANSPORT_FAILURE_TEXT :: jsstring where
  "TRANSPORT_FAILURE_TEXT =
    [0x3054, 0x3081, 0x3093, 0x306D, 0x3001, 0x3061, 0x3087, 0x3063, 0x3068, 0x901A, 0x4FE1,
     0x306E, 0x8ABF, 0x5B50, 0x304C, 0x60AA, 0x3044, 0x307F, 0x305F, 0x3044, 0x3002, 0x3082,
     0x3046, 0x4E00, 0x56DE, 0x9001, 0x3063, 0x3066, 0x304F, 0x308C, 0x308B, 0xFF1F]"

definition DEFAULT_FEEDBACK :: jsstring where
  "DEFAULT_FEEDBACK = [0x627F, 0x77E5, 0x3057, 0x307E, 0x3057, 0x305F, 0x3002]"

definition DEFAULT_MEAL_NAME :: jsstring where
  "DEFAULT_MEAL_NAME = [0x540D, 0x79F0, 0x4E0D, 0x660E, 0x306E, 0x98DF, 0x4E8B]"

definition DEFAULT_CONFIRMATION :: jsstring where
  "DEFAULT_CONFIRMATION = [0x8A18, 0x9332, 0x3057, 0x307E, 0x3057, 0x305F, 0xFF01]"

text \<open>The object returned by the outer \<^verbatim>\<open>catch\<close>.\<close>

definition transport_failure :: meal_analysis where
  "transport_failure = \<lparr>a_text = TRANSPORT_FAILURE_TEXT, a_meal = None\<rparr>"

subsection \<open>Dates\<close>

text \<open>The readings of a \<^verbatim>\<open>new Date()\<close> that the function uses.\<close>

record clock =
  getFullYear :: nat
  getMonth :: nat
  getDate :: nat
  getHours :: nat
  getMinutes :: nat
  getSeconds :: nat

text \<open>\<^verbatim>\<open>String(n)\<close> for a natural number: its decimal digits.\<close>

fun decimal :: "nat \<Rightarrow> jsstring" where
  "decimal n = (if n < 10 then [of_nat (48 + n)]
                else decimal (n div 10) @ [of_nat (48 + n mod 10)])"

declare decimal.simps [simp del]

text \<open>\<^verbatim>\<open>s.padStart(2, '0')\<close>\<close>

definition padStart2 :: "jsstring \<Rightarrow> jsstring" where
  "padStart2 s = replicate (2 - length s) 0x0030 @ s"

definition todayStr :: "clock \<Rightarrow> jsstring" where
  "todayStr today =
     decimal (getFullYear today) @ [0x002D] @ padStart2 (decimal (getMonth today + 1))
       @ [0x002D] @ padStart2 (decimal (getDate today))"

text \<open>\<^verbatim>\<open>s.split(sep)\<close> for a separator of one character.\<close>

fun split_on :: "jschar \<Rightarrow> jsstring \<Rightarrow> jsstring list" where
  "split_on sep [] = [[]]"
| "split_on sep (c # cs) =
     (if c = sep then [] # split_on sep cs
      else (case split_on sep cs of [] \<Rightarrow> [[c]] | p # ps \<Rightarrow> (c # p) # ps))"

text \<open>
  The library functions on which the date computation rests are parameters:
  \<^item> \<open>Number\<close>, applied to a string;
  \<^item> \<open>fromYMD y m d\<close>, the time value of \<^verbatim>\<open>new Date(y, m, d)\<close> for finite arguments;
  \<^item> \<open>withHours t h m s\<close>, the time value of a date of time value \<open>t\<close> after
    \<^verbatim>\<open>setHours(h, m, s)\<close>.
  What ECMAScript fixes for the other arguments is written into the model: a NaN argument
  makes an invalid date (time value NaN), and \<^verbatim>\<open>setHours\<close> leaves an invalid date invalid.
  Neither throws.
\<close>

record datelib =
  Number :: "jsstring \<Rightarrow> jsnum"
  fromYMD :: "rat \<Rightarrow> rat \<Rightarrow> rat \<Rightarrow> jsnum"
  withHours :: "rat \<Rightarrow> nat \<Rightarrow> nat \<Rightarrow> nat \<Rightarrow> jsnum"

text \<open>An element taken from an array by destructuring: undefined beyond the end.\<close>

definition element :: "'a list \<Rightarrow> nat \<Rightarrow> 'a option" where
  "element xs i = (if i < length xs then Some (xs ! i) else None)"

text \<open>A number-or-undefined passed where a number is expected: undefined becomes NaN.\<close>

definition to_number :: "jsnum option \<Rightarrow> jsnum" where
  "to_number v = (case v of None \<Rightarrow> NaN | Some x \<Rightarrow> x)"

text \<open>\<^verbatim>\<open>m - 1\<close>\<close>

definition minus_one :: "jsnum option \<Rightarrow> jsnum" where
  "minus_one v = (case v of None \<Rightarrow> NaN | Some NaN \<Rightarrow> NaN | Some (Num x) \<Rightarrow> Num (x - 1))"

definition newDate :: "datelib \<Rightarrow> jsnum \<Rightarrow> jsnum \<Rightarrow> jsnum \<Rightarrow> jsnum" where
  "newDate lib y m d =
     (case y of NaN \<Rightarrow> NaN | Num y' \<Rightarrow>
        (case m of NaN \<Rightarrow> NaN | Num m' \<Rightarrow>
           (case d of NaN \<Rightarrow> NaN | Num d' \<Rightarrow> fromYMD lib y' m' d')))"

definition setHours :: "datelib \<Rightarrow> jsnum \<Rightarrow> nat \<Rightarrow> nat \<Rightarrow> nat \<Rightarrow> jsnum" where
  "setHours lib t h m s = (case t of NaN \<Rightarrow> NaN | Num t' \<Rightarrow> withHours lib t' h m s)"

text \<open>
  The block that computes \<^verbatim>\<open>timestamp\<close>. With a target date that is a string or missing,
  nothing in the \<^verbatim>\<open>try\<close> block throws, so the initial value \<^verbatim>\<open>Date.now()\<close> is always
  overwritten and the \<^verbatim>\<open>catch\<close> branch is never taken.
\<close>

definition resolve_timestamp :: "datelib \<Rightarrow> clock \<Rightarrow> clock \<Rightarrow> jsstring option \<Rightarrow> jsnum" where
  "resolve_timestamp lib today now target =
     (let nums = map (Number lib) (split_on 0x002D (str_or target (todayStr today)));
          y = element nums 0;
          m = element nums 1;
          d = element nums 2;
          dateObj = newDate lib (to_number y) (minus_one m) (to_number d)
      in setHours lib dateObj (getHours now) (getMinutes now) (getSeconds now))"

subsection \<open>The function\<close>

definition mealLog_of ::
  "arith \<Rightarrow> jsstring \<Rightarrow> jsnum \<Rightarrow> meal_response \<Rightarrow> meal_data \<Rightarrow> MealLog" where
  "mealLog_of ar uuid timestamp result md =
     \<lparr>ml_id = uuid,
      ml_timestamp = timestamp,
      ml_name = str_or (md_name md) DEFAULT_MEAL_NAME,
      ml_calories = Math_round (num_or_zero (md_calories md)),
      ml_protein = num_div ar (Math_round (num_mul ar (num_or_zero (md_protein md)) 10)) 10,
      ml_fat = num_div ar (Math_round (num_mul ar (num_or_zero (md_fat md)) 10)) 10,
      ml_carbs = num_div ar (Math_round (num_mul ar (num_or_zero (md_carbs md)) 10)) 10,
      ml_imageUrl = None,
      ml_imagePath = None,
      ml_confirmationMessage = Some (str_or (confirmation_message result) DEFAULT_CONFIRMATION)\<rparr>"

text \<open>
  The part of the \<^verbatim>\<open>try\<close> block after a successful \<^verbatim>\<open>JSON.parse\<close> that returned an object.
\<close>

definition decide ::
  "arith \<Rightarrow> datelib \<Rightarrow> clock \<Rightarrow> clock \<Rightarrow> jsstring \<Rightarrow> meal_response \<Rightarrow> meal_analysis" where
  "decide ar lib today now uuid result =
     (let feedbackText = str_or (feedback result) DEFAULT_FEEDBACK
      in if is_food_related result = Some True then
           (case meal_data result of
              Some md \<Rightarrow>
                \<lparr>a_text = feedbackText,
                 a_meal = Some (mealLog_of ar uuid
                            (resolve_timestamp lib today now (target_date result)) result md)\<rparr>
            | None \<Rightarrow> \<lparr>a_text = feedbackText, a_meal = None\<rparr>)
         else \<lparr>a_text = feedbackText, a_meal = None\<rparr>)"

text \<open>
  The reply of the generation capability is the parameter \<open>gen\<close>; the input, the profile and
  the history only determine the request and are not represented. \<open>today\<close> is read before
  the request, \<open>now\<close> after the reply, \<open>uuid\<close> is the value of \<^verbatim>\<open>crypto.randomUUID()\<close>.
  An empty response text and a parsed null both end in the outer \<^verbatim>\<open>catch\<close>: the first by
  the explicit \<^verbatim>\<open>throw\<close>, the second by the TypeError of reading a property of null.
\<close>

definition analyzeMeal ::
  "arith \<Rightarrow> environment \<Rightarrow> gen_outcome \<Rightarrow> (jsstring \<Rightarrow> meal_response parsed) \<Rightarrow> datelib
     \<Rightarrow> clock \<Rightarrow> clock \<Rightarrow> jsstring \<Rightarrow> error + meal_analysis" where
  "analyzeMeal ar env gen parse lib today now uuid =
     (case getAiClient env of
        Inl e \<Rightarrow> Inl e
      | Inr ai \<Rightarrow>
          Inr (case gen of
                 GenThrows \<Rightarrow> transport_failure
               | GenText None \<Rightarrow> transport_failure
               | GenText (Some responseText) \<Rightarrow>
                   if responseText = [] then transport_failure
                   else (case parse (cleanJsonString responseText) of
                           ParseThrows \<Rightarrow> \<lparr>a_text = PARSE_FAILURE_TEXT, a_meal = None\<rparr>
                         | ParsedNull \<Rightarrow> transport_failure
                         | ParsedObj result \<Rightarrow> decide ar lib today now uuid result)))"

subsection \<open>Sample inputs\<close>

text \<open>
  Concrete values on which the theorems below are instantiated. The sample library is a
  \<^verbatim>\<open>Date\<close> in the time zone UTC, and its \<open>Number\<close> is right on strings of decimal
  digits and on the strings without any numeric reading that are used below.
\<close>

definition sample_env :: environment where
  "sample_env = \<lparr>aistudio_apiKey = None, env_apiKey = Some [0x006B, 0x0065, 0x0079]\<rparr>"

definition no_key_env :: environment where
  "no_key_env = \<lparr>aistudio_apiKey = None, env_apiKey = None\<rparr>"

definition sample_clock :: clock where
  "sample_clock = \<lparr>getFullYear = 2026, getMonth = 0, getDate = 5,
                    getHours = 12, getMinutes = 30, getSeconds = 15\<rparr>"

definition sample_Number :: "jsstring \<Rightarrow> jsnum" where
  "sample_Number s =
     (if list_all (\<lambda>c. 0x0030 \<le> c \<and> c \<le> 0x0039) s
      then Num (of_nat (foldl (\<lambda>a c. 10 * a + (unat c - 48)) 0 s))
      else NaN)"

text \<open>Days from 1970-01-01 to the given day of the proleptic Gregorian calendar.\<close>

definition days_from_civil :: "int \<Rightarrow> int \<Rightarrow> int \<Rightarrow> int" where
  "days_from_civil y m d =
     (let y' = (if m \<le> 2 then y - 1 else y);
          era = y' div 400;
          yoe = y' - era * 400;
          doy = (153 * (if m > 2 then m - 3 else m + 9) + 2) div 5 + d - 1;
          doe = yoe * 365 + yoe div 4 - yoe div 100 + doy
      in era * 146097 + doe - 719468)"

definition sample_fromYMD :: "rat \<Rightarrow> rat \<Rightarrow> rat \<Rightarrow> jsnum" where
  "sample_fromYMD y m d =
     (let yi = \<lfloor>y\<rfloor>; mi = \<lfloor>m\<rfloor>; di = \<lfloor>d\<rfloor>;
          yr = (if 0 \<le> yi \<and> yi \<le> 99 then 1900 + yi else yi)
      in Num (of_int ((days_from_civil (yr + mi div 12) (mi mod 12 + 1) 1 + di - 1) * 86400000)))"

definition sample_withHours :: "rat \<Rightarrow> nat \<Rightarrow> nat \<Rightarrow> nat \<Rightarrow> jsnum" where
  "sample_withHours t h m s =
     Num (of_int (\<lfloor>t\<rfloor> div 86400000 * 86400000
                  + (int h * 3600 + int m * 60 + int s) * 1000 + \<lfloor>t\<rfloor> mod 1000))"

definition sample_lib :: datelib where
  "sample_lib = \<lparr>Number = sample_Number, fromYMD = sample_fromYMD, withHours = sample_withHours\<rparr>"

definition empty_response :: meal_response where
  "empty_response = \<lparr>is_food_related = None, feedback = None, confirmation_message = None,
                      target_date = None, meal_data = None\<rparr>"

definition sample_meal_data :: meal_data where
  "sample_meal_data = \<lparr>md_name = None, md_calories = Some 500, md_protein = Some 20,
                         md_fat = Some 15, md_carbs = Some 60\<rparr>"

definition missing_meal_data :: meal_data where
  "missing_meal_data = \<lparr>md_name = None, md_calories = None, md_protein = None,
                          md_fat = None, md_carbs = None\<rparr>"

text \<open>The text 2024/01/15: a date, but not in the form year-month-day.\<close>

definition slash_date :: jsstring where
  "slash_date = [0x0032, 0x0030, 0x0032, 0x0034, 0x002F, 0x0030, 0x0031, 0x002F, 0x0031, 0x0035]"

section \<open>createNewCoach\<close>

text \<open>
  A coach profile. The fields taken from the generated persona are whatever the parsed
  response holds under that name, so each may be undefined (\<open>None\<close>).
\<close>

record CoachProfile =
  name :: "jsstring option"
  personality :: "jsstring option"
  background :: "jsstring option"
  tone :: "jsstring option"
  greeting :: "jsstring option"
  avatarUrl :: jsstring

definition DEFAULT_COACH :: CoachProfile where
  "DEFAULT_COACH =
    \<lparr>name = Some [0x30EB, 0x30DF],
     personality = Some
      [0x89AA, 0x3057, 0x307F, 0x3084, 0x3059, 0x304F, 0x3001, 0x77E5, 0x7684, 0x3067, 0x3001,
       0x30DD, 0x30B8, 0x30C6, 0x30A3, 0x30D6, 0x3002, 0x5426, 0x5B9A, 0x306F, 0x305B, 0x305A,
       0x3001, 0x5E38, 0x306B, 0x300C, 0x3069, 0x3046, 0x3059, 0x308C, 0x3070, 0x3082, 0x3063,
       0x3068, 0x826F, 0x304F, 0x306A, 0x308B, 0x304B, 0x300D, 0x3092, 0x4E00, 0x7DD2, 0x306B,
       0x8003, 0x3048, 0x308B, 0x4F34, 0x8D70, 0x8005, 0x3002],
     background = Some
      [0x6700, 0x65B0, 0x306E, 0x6804, 0x990A, 0x5B66, 0x30C7, 0x30FC, 0x30BF, 0x30BB, 0x30C3,
       0x30C8, 0x304B, 0x3089, 0x751F, 0x307E, 0x308C, 0x305F, 0x0041, 0x0049, 0x3002, 0x6570,
       0x5343, 0x4EBA, 0x306E, 0x30C0, 0x30A4, 0x30A8, 0x30C3, 0x30C8, 0x6210, 0x529F, 0x30C7,
       0x30FC, 0x30BF, 0x3092, 0x5B66, 0x7FD2, 0x6E08, 0x307F, 0x3002],
     tone = Some
      [0x4E01, 0x5BE7, 0x306A, 0x304C, 0x3089, 0x3082, 0x3001, 0x89AA, 0x3057, 0x3044, 0x30B3,
       0x30FC, 0x30C1, 0x306E, 0x3088, 0x3046, 0x306A, 0x6E29, 0x304B, 0x307F, 0x306E, 0x3042,
       0x308B, 0x8A00, 0x8449, 0x9063, 0x3044, 0xFF08, 0x4F8B, 0xFF1A, 0x300C, 0x304A, 0x75B2,
       0x308C, 0x69D8, 0xFF01, 0x300D, 0x300C, 0x4ECA, 0x65E5, 0x306E, 0x30E9, 0x30F3, 0x30C1,
       0x3001, 0x5F69, 0x308A, 0x304C, 0x826F, 0x304F, 0x3066, 0x6700, 0x9AD8, 0x3060, 0x306D,
       0xFF01, 0x300D, 0xFF09, 0x3002],
     greeting = Some
      [0x3053, 0x3093, 0x306B, 0x3061, 0x306F, 0xFF01, 0x3053, 0x308C, 0x304B, 0x3089, 0x4E00,
       0x7DD2, 0x306B, 0x9811, 0x5F35, 0x3063, 0x3066, 0x3044, 0x3053, 0x3046, 0x306D, 0xFF01],
     avatarUrl = []\<rparr>"

text \<open>The object of the \<^verbatim>\<open>catch\<close> branch: \<^verbatim>\<open>{ ...DEFAULT_COACH, avatarUrl: "" }\<close>.\<close>

definition fallback_coach :: CoachProfile where
  "fallback_coach = DEFAULT_COACH\<lparr>avatarUrl := []\<rparr>"

text \<open>The parsed persona: the fields of the response schema, each possibly missing.\<close>

record persona =
  p_name :: "jsstring option"
  p_personality :: "jsstring option"
  p_background :: "jsstring option"
  p_tone :: "jsstring option"
  p_greeting :: "jsstring option"
  p_imagePrompt :: "jsstring option"

text \<open>
  The style hint decides between two instructions in the prompt; an empty hint counts as
  absent.
\<close>

datatype type_instruction = Requested jsstring | Random

definition typeInstruction :: "jsstring option \<Rightarrow> type_instruction" where
  "typeInstruction requestedType =
     (case requestedType of
        None \<Rightarrow> Random
      | Some t \<Rightarrow> if t \<noteq> [] then Requested t else Random)"

text \<open>
  What the image request does: it throws, or it returns a response. Of the response only
  \<^verbatim>\<open>candidates?.[0]?.content?.parts\<close> is read: \<open>None\<close> when that is missing, otherwise the
  list of the parts, each given by the data of its \<^verbatim>\<open>inlineData\<close> if it has one.
\<close>

datatype image_outcome = ImageThrows | ImageResponse "jsstring option list option"

definition DATA_URL_PREFIX :: jsstring where
  "DATA_URL_PREFIX =
    [0x0064, 0x0061, 0x0074, 0x0061, 0x003A, 0x0069, 0x006D, 0x0061, 0x0067, 0x0065, 0x002F,
     0x0070, 0x006E, 0x0067, 0x003B, 0x0062, 0x0061, 0x0073, 0x0065, 0x0036, 0x0034, 0x002C]"

text \<open>The loop over the parts: the first part with inline data ends it.\<close>

fun first_inline :: "jsstring option list \<Rightarrow> jsstring option" where
  "first_inline [] = None"
| "first_inline (part # parts) =
     (case part of
        Some d \<Rightarrow> Some (DATA_URL_PREFIX @ d)
      | None \<Rightarrow> first_inline parts)"

text \<open>
  \<^verbatim>\<open>generateImage\<close> obtains its own client before its \<^verbatim>\<open>try\<close> block; inside, every failure
  ends in \<^verbatim>\<open>return null\<close>.
\<close>

definition generateImage ::
  "environment \<Rightarrow> (jsstring option \<Rightarrow> image_outcome) \<Rightarrow> jsstring option \<Rightarrow> error + jsstring option" where
  "generateImage env img prompt =
     (case getAiClient env of
        Inl e \<Rightarrow> Inl e
      | Inr ai \<Rightarrow>
          Inr (case img prompt of
                 ImageThrows \<Rightarrow> None
               | ImageResponse None \<Rightarrow> None
               | ImageResponse (Some parts) \<Rightarrow> first_inline parts))"

text \<open>
  The persona request is the parameter \<open>gen\<close>, a function of the instruction chosen by the
  style hint; the image request is the parameter \<open>img\<close>, a function of the image prompt.
  A parsed value that is falsy without being null (0, the empty string, false) has no name
  and so takes the same branch as an object without a name. Any failure of
  \<^verbatim>\<open>generateImage\<close>, also its rejection, leaves the avatar empty.
\<close>

definition createNewCoach ::
  "environment \<Rightarrow> (type_instruction \<Rightarrow> gen_outcome) \<Rightarrow> (jsstring \<Rightarrow> persona parsed)
     \<Rightarrow> (jsstring option \<Rightarrow> image_outcome) \<Rightarrow> jsstring option \<Rightarrow> error + CoachProfile" where
  "createNewCoach env gen parse img requestedType =
     (case getAiClient env of
        Inl e \<Rightarrow> Inl e
      | Inr ai \<Rightarrow>
          Inr (case gen (typeInstruction requestedType) of
                 GenThrows \<Rightarrow> fallback_coach
               | GenText response_text \<Rightarrow>
                   (case parse (cleanJsonString (str_or response_text braces)) of
                      ParseThrows \<Rightarrow> fallback_coach
                    | ParsedNull \<Rightarrow> fallback_coach
                    | ParsedObj personaData \<Rightarrow>
                        if \<not> truthy_str (p_name personaData) then fallback_coach
                        else
                          \<lparr>name = p_name personaData,
                           personality = p_personality personaData,
                           background = p_background personaData,
                           tone = p_tone personaData,
                           greeting = p_greeting personaData,
                           avatarUrl =
                             (case generateImage env img (p_imagePrompt personaData) of
                                Inl e \<Rightarrow> []
                              | Inr generatedUrl \<Rightarrow> str_or generatedUrl [])\<rparr>)))"

definition name_only_persona :: persona where
  "name_only_persona = \<lparr>p_name = Some [0x0041], p_personality = None, p_background = None,
                         p_tone = None, p_greeting = None, p_imagePrompt = None\<rparr>"

section \<open>The chat interface: handleSend and confirmMeal\<close>

record ChatMessage =
  m_id :: jsstring
  m_role :: role
  m_text :: jsstring
  m_timestamp :: rat
  isLogConfirmation :: "bool option"
  mealData :: "MealLog option"
  coachName :: "jsstring option"
  coachAvatarUrl :: "jsstring option"

definition CONFIRM_DEFAULT :: jsstring where
  "CONFIRM_DEFAULT = [0x767B, 0x9332, 0x3057, 0x307E, 0x3057, 0x305F, 0xFF01]"

text \<open>Two line feeds, the check mark U+2705 and a space.\<close>

definition CONFIRM_SEP :: jsstring where
  "CONFIRM_SEP = [0x000A, 0x000A, 0x2705, 0x0020]"

definition SEND_ERROR_TEXT :: jsstring where
  "SEND_ERROR_TEXT =
    [0x3054, 0x3081, 0x3093, 0x306D, 0x3001, 0x3046, 0x307E, 0x304F, 0x51E6, 0x7406, 0x3067,
     0x304D, 0x306A, 0x304B, 0x3063, 0x305F, 0x307F, 0x305F, 0x3044, 0x3002, 0x3082, 0x3046,
     0x4E00, 0x56DE, 0x8A66, 0x3057, 0x3066, 0x307F, 0x3066, 0xFF01]"

subsection \<open>What one call of handleSend reads\<close>

text \<open>
  How the analysis of the input ended: with a reply text and possibly a detected meal, or
  with an exception. The calls that produce them are analyzeMeal and chatWithLumi.
\<close>

datatype send_outcome = Replied jsstring "MealLog option" | SendFailed

text \<open>
  Everything else that one call of \<^verbatim>\<open>handleSend\<close> reads: the input, the loading flag, the
  identifiers and clock readings it draws, and the coach of the user.
\<close>

record send_input =
  inputText :: jsstring
  has_selectedImage :: bool
  isLoading :: bool
  user_message_id :: jsstring
  user_message_time :: rat
  model_message_id :: jsstring
  model_message_time :: rat
  currentCoachName :: "jsstring option"
  currentCoachAvatar :: "jsstring option"
  outcome :: send_outcome

definition newUserMessage :: "send_input \<Rightarrow> ChatMessage" where
  "newUserMessage i =
     \<lparr>m_id = user_message_id i, m_role = User, m_text = inputText i,
      m_timestamp = user_message_time i, isLogConfirmation = None, mealData = None,
      coachName = None, coachAvatarUrl = None\<rparr>"

text \<open>The message appended after the analysis: \<^verbatim>\<open>modelMessage\<close> or \<^verbatim>\<open>errorMessage\<close>.\<close>

definition modelMessage :: "send_input \<Rightarrow> ChatMessage" where
  "modelMessage i =
     (case outcome i of
        Replied responseText detectedMeal \<Rightarrow>
          \<lparr>m_id = model_message_id i, m_role = Model, m_text = responseText,
           m_timestamp = model_message_time i,
           isLogConfirmation = Some (detectedMeal \<noteq> None), mealData = detectedMeal,
           coachName = currentCoachName i, coachAvatarUrl = currentCoachAvatar i\<rparr>
      | SendFailed \<Rightarrow>
          \<lparr>m_id = model_message_id i, m_role = Model, m_text = SEND_ERROR_TEXT,
           m_timestamp = model_message_time i,
           isLogConfirmation = None, mealData = None,
           coachName = currentCoachName i, coachAvatarUrl = currentCoachAvatar i\<rparr>)"

subsection \<open>The state of the page\<close>

text \<open>
  \<^verbatim>\<open>handleSend\<close> and \<^verbatim>\<open>addMeal\<close> are asynchronous: each runs up to its \<^verbatim>\<open>await\<close>, and the rest
  of it runs when the awaited call has settled, after whatever else happened in between.
  A call that is awaited is kept with what the rest of the function uses: the meal for
  \<^verbatim>\<open>addMealToDb\<close>; for the analysis in \<^verbatim>\<open>handleSend\<close> the input and the \<^verbatim>\<open>messages\<close> of the
  render that made the handler.
\<close>

datatype pending_call = AddMealToDb MealLog | Analysis send_input "ChatMessage list"

text \<open>
  The two pieces of React state that the chat interface changes, and the calls that are
  awaited.
\<close>

record page =
  messages :: "ChatMessage list"
  meals :: "MealLog list"
  pending :: "pending_call list"

subsection \<open>updateMessages, passed to the chat interface as setMessages\<close>

text \<open>
  The chat interface always passes a function. \<^verbatim>\<open>updateMessages\<close> applies it to the
  \<^verbatim>\<open>messages\<close> of the render that made this \<^verbatim>\<open>updateMessages\<close>, here \<open>rendered\<close>, and sets the
  state to the result; the state at the time of the call is not read. It also sends the
  new messages to the data base, which is not part of the state of the page.
\<close>

definition updateMessages ::
  "ChatMessage list \<Rightarrow> (ChatMessage list \<Rightarrow> ChatMessage list) \<Rightarrow> page \<Rightarrow> page" where
  "updateMessages rendered newMessagesOrFn pg = pg\<lparr>messages := newMessagesOrFn rendered\<rparr>"

subsection \<open>addMeal, passed to the chat interface as onAddMeal\<close>

text \<open>
  What the insertion into the data base does: it throws, or it returns the inserted row
  (or null).
\<close>

record db_row =
  row_id :: jsstring
  row_image_path :: "jsstring option"

datatype db_outcome = DbThrows | DbReturns "db_row option"

text \<open>
  \<open>session_user_id\<close> is \<^verbatim>\<open>session?.user?.id\<close>. Up to its \<^verbatim>\<open>await\<close>, \<^verbatim>\<open>addMeal\<close> calls the data base
  unless there is no user.
\<close>

definition addMeal :: "jsstring option \<Rightarrow> MealLog \<Rightarrow> page \<Rightarrow> page" where
  "addMeal session_user_id meal pg =
     (if \<not> truthy_str session_user_id then pg
      else pg\<lparr>pending := pending pg @ [AddMealToDb meal]\<rparr>)"

text \<open>
  The rest of \<^verbatim>\<open>addMeal\<close>, once the data base has answered. \<^verbatim>\<open>setMeals\<close> is the state setter
  of React: its function is applied to the list of meals at that time. The meal is
  appended in each of the three branches.
\<close>

definition addMeal_continued :: "db_outcome \<Rightarrow> MealLog \<Rightarrow> page \<Rightarrow> page" where
  "addMeal_continued answer meal pg =
     (case answer of
        DbThrows \<Rightarrow> pg\<lparr>meals := meals pg @ [meal]\<rparr>
      | DbReturns None \<Rightarrow> pg\<lparr>meals := meals pg @ [meal]\<rparr>
      | DbReturns (Some addedMeal) \<Rightarrow>
          pg\<lparr>meals := meals pg @ [meal\<lparr>ml_id := row_id addedMeal,
                                         ml_imagePath := row_image_path addedMeal\<rparr>]\<rparr>)"

subsection \<open>confirmMeal\<close>

text \<open>
  \<open>rendered\<close> is the \<^verbatim>\<open>messages\<close> of the render that made the handler and the
  \<^verbatim>\<open>updateMessages\<close> it calls.
\<close>

definition confirmMeal ::
  "jsstring option \<Rightarrow> ChatMessage list \<Rightarrow> jsstring \<Rightarrow> MealLog \<Rightarrow> page \<Rightarrow> page" where
  "confirmMeal session_user_id rendered messageId meal pg =
     (let confirmText = str_or (ml_confirmationMessage meal) CONFIRM_DEFAULT
      in updateMessages rendered
           (map (\<lambda>m. if m_id m = messageId
                     then m\<lparr>isLogConfirmation := Some False,
                             m_text := m_text m @ CONFIRM_SEP @ confirmText\<rparr>
                     else m))
           (addMeal session_user_id meal pg))"

subsection \<open>handleSend\<close>

text \<open>Up to the \<^verbatim>\<open>await\<close> of the analysis.\<close>

definition handleSend :: "ChatMessage list \<Rightarrow> send_input \<Rightarrow> page \<Rightarrow> page" where
  "handleSend rendered i pg =
     (if (trim (inputText i) = [] \<and> \<not> has_selectedImage i) \<or> isLoading i then pg
      else (updateMessages rendered (\<lambda>prev. prev @ [newUserMessage i]) pg)
             \<lparr>pending := pending pg @ [Analysis i rendered]\<rparr>)"

text \<open>
  The rest of \<^verbatim>\<open>handleSend\<close>, once the analysis has settled. It calls the same
  \<^verbatim>\<open>updateMessages\<close> as before the \<^verbatim>\<open>await\<close>.
\<close>

definition handleSend_continued :: "ChatMessage list \<Rightarrow> send_input \<Rightarrow> page \<Rightarrow> page" where
  "handleSend_continued rendered i pg =
     updateMessages rendered (\<lambda>prev. prev @ [modelMessage i]) pg"

subsection \<open>Runs of the chat interface\<close>

text \<open>
  What can happen: the user sends, the user confirms a proposal, or the awaited call at
  some position settles. A handler that the user starts is the one of the latest render,
  whose \<^verbatim>\<open>messages\<close> are those of the state. The answer of the data base comes with the
  event; the answer of an analysis is a part of the input of \<^verbatim>\<open>handleSend\<close>.
\<close>

datatype event = Send send_input | Confirm jsstring MealLog | Settle nat db_outcome

fun continue :: "pending_call \<Rightarrow> db_outcome \<Rightarrow> page \<Rightarrow> page" where
  "continue (AddMealToDb meal) answer pg = addMeal_continued answer meal pg"
| "continue (Analysis i rendered) answer pg = handleSend_continued rendered i pg"

fun step :: "jsstring option \<Rightarrow> page \<Rightarrow> event \<Rightarrow> page" where
  "step session pg (Send i) = handleSend (messages pg) i pg"
| "step session pg (Confirm messageId meal) =
     confirmMeal session (messages pg) messageId meal pg"
| "step session pg (Settle k answer) =
     (if k < length (pending pg)
      then continue (pending pg ! k) answer
             (pg\<lparr>pending := take k (pending pg) @ drop (Suc k) (pending pg)\<rparr>)
      else pg)"

definition run :: "jsstring option \<Rightarrow> page \<Rightarrow> event list \<Rightarrow> page" where
  "run session pg evs = foldl (step session) pg evs"

text \<open>The meals that the events of a run confirm, in order.\<close>

fun confirmed :: "event list \<Rightarrow> MealLog list" where
  "confirmed [] = []"
| "confirmed (Confirm messageId meal # evs) = meal # confirmed evs"
| "confirmed (ev # evs) = confirmed evs"

text \<open>The meals of the insertions that are awaited.\<close>

fun awaited :: "pending_call list \<Rightarrow> MealLog list" where
  "awaited [] = []"
| "awaited (AddMealToDb meal # cs) = meal # awaited cs"
| "awaited (c # cs) = awaited cs"

text \<open>
  A meal without the two fields that the data base may replace when the meal is stored.
\<close>

definition as_proposed :: "MealLog \<Rightarrow> MealLog" where
  "as_proposed meal = meal\<lparr>ml_id := [], ml_imagePath := None\<rparr>"

definition sample_meal :: MealLog where
  "sample_meal =
     \<lparr>ml_id = [0x0075], ml_timestamp = Num 1767616215000, ml_name = DEFAULT_MEAL_NAME,
      ml_calories = 500, ml_protein = 20, ml_fat = 15, ml_carbs = 60,
      ml_imageUrl = None, ml_imagePath = None,
      ml_confirmationMessage = Some DEFAULT_CONFIRMATION\<rparr>"

definition sample_message :: ChatMessage where
  "sample_message =
     \<lparr>m_id = [0x006D], m_role = Model, m_text = DEFAULT_FEEDBACK, m_timestamp = 1767616215000,
      isLogConfirmation = Some True, mealData = Some sample_meal,
      coachName = None, coachAvatarUrl = None\<rparr>"

text \<open>A send whose analysis detects the sample meal and so proposes it.\<close>

definition sample_send :: send_input where
  "sample_send =
     \<lparr>inputText = [0x0061], has_selectedImage = False, isLoading = False,
      user_message_id = [0x0075], user_message_time = 1767616215000,
      model_message_id = [0x006D], model_message_time = 1767616215000,
      currentCoachName = None, currentCoachAvatar = None,
      outcome = Replied DEFAULT_FEEDBACK (Some sample_meal)\<rparr>"

definition sample_page :: page where
  "sample_page = \<lparr>messages = [sample_message], meals = [], pending = []\<rparr>"

section \<open>Image normalization in handleImageSelect\<close>

text \<open>
  The width and height of the decoded image are unsigned 32-bit integers. The variables
  \<^verbatim>\<open>width\<close> and \<^verbatim>\<open>height\<close> are numbers; \<^verbatim>\<open>height *= MAX_SIZE / width\<close> is a division
  followed by a multiplication.
\<close>

definition MAX_SIZE :: rat where
  "MAX_SIZE = 1024"

definition scaled_size :: "arith \<Rightarrow> 32 word \<Rightarrow> 32 word \<Rightarrow> rat \<times> rat" where
  "scaled_size ar img_width img_height =
     (let width = of_nat (unat img_width); height = of_nat (unat img_height)
      in if width > height then
           (if width > MAX_SIZE
            then (MAX_SIZE, num_mul ar height (num_div ar MAX_SIZE width))
            else (width, height))
         else
           (if height > MAX_SIZE
            then (num_mul ar width (num_div ar MAX_SIZE height), MAX_SIZE)
            else (width, height)))"

text \<open>
  The size of the canvas after \<^verbatim>\<open>canvas.width = width; canvas.height = height\<close>: the
  attributes are unsigned integers, so a fraction is cut off.
\<close>

definition canvas_size :: "rat \<times> rat \<Rightarrow> nat \<times> nat" where
  "canvas_size wh = (nat \<lfloor>fst wh\<rfloor>, nat \<lfloor>snd wh\<rfloor>)"

section \<open>Properties of the sanitizer\<close>

lemma sanitize_loop_length:
  "length (sanitize_loop acc lr hs) \<le> length acc + length hs"
proof (induction hs arbitrary: acc lr)
  case Nil
  show ?case by simp
next
  case (Cons h hs)
  let ?acc = "acc @ [\<lparr>c_role = h_role h, c_text = text_of (h_text h)\<rparr>]"
  have keep: "length (sanitize_loop acc lr hs) \<le> length acc + length hs"
    by (rule Cons.IH)
  have push: "length (sanitize_loop ?acc (Some (h_role h)) hs) \<le> length ?acc + length hs"
    by (rule Cons.IH)
  from keep push show ?case by simp
qed

lemma sanitize_loop_alternating:
  "distinct_adj (map c_role acc) \<Longrightarrow> tracks acc lr \<Longrightarrow>
   distinct_adj (map c_role (sanitize_loop acc lr hs))"
proof (induction hs arbitrary: acc lr)
  case Nil
  then show ?case by simp
next
  case (Cons h hs)
  show ?case
  proof (cases "skip_text (h_text h) \<or> Some (h_role h) = lr")
    case True
    with Cons show ?thesis by auto
  next
    case False
    let ?acc = "acc @ [\<lparr>c_role = h_role h, c_text = text_of (h_text h)\<rparr>]"
    from False Cons.prems have "distinct_adj (map c_role ?acc)"
      by (auto simp: tracks_def distinct_adj_append_iff last_map split: if_splits)
    moreover have "tracks ?acc (Some (h_role h))"
      by (simp add: tracks_def)
    ultimately have "distinct_adj (map c_role (sanitize_loop ?acc (Some (h_role h)) hs))"
      by (rule Cons.IH)
    with False show ?thesis by simp
  qed
qed

lemma sanitize_loop_texts:
  "list_all (\<lambda>c. trim (c_text c) \<noteq> []) acc \<Longrightarrow>
   list_all (\<lambda>c. trim (c_text c) \<noteq> []) (sanitize_loop acc lr hs)"
proof (induction hs arbitrary: acc lr)
  case Nil
  then show ?case by simp
next
  case (Cons h hs)
  let ?acc = "acc @ [\<lparr>c_role = h_role h, c_text = text_of (h_text h)\<rparr>]"
  have keep: "list_all (\<lambda>c. trim (c_text c) \<noteq> []) (sanitize_loop acc lr hs)"
    using Cons.prems by (rule Cons.IH)
  have push: "list_all (\<lambda>c. trim (c_text c) \<noteq> []) (sanitize_loop ?acc (Some (h_role h)) hs)"
    if "\<not> skip_text (h_text h)"
  proof (rule Cons.IH)
    from that have "trim (text_of (h_text h)) \<noteq> []"
      by (cases "h_text h") (simp_all add: skip_text_def text_of_def)
    with Cons.prems show "list_all (\<lambda>c. trim (c_text c) \<noteq> []) ?acc" by simp
  qed
  from keep push show ?case by simp
qed

lemma trim_Nil: "trim [] = []"
  by (simp add: trim_def)

lemma drop_trailing_user_length: "length (drop_trailing_user cs) \<le> length cs"
  by (simp add: drop_trailing_user_def)

lemma drop_trailing_user_subset: "set (drop_trailing_user cs) \<subseteq> set cs"
  by (auto simp: drop_trailing_user_def dest: in_set_butlastD)

lemma distinct_adj_butlast: "distinct_adj xs \<Longrightarrow> distinct_adj (butlast xs)"
proof (cases "xs = []")
  case True
  then show ?thesis by simp
next
  case False
  assume d: "distinct_adj xs"
  from False have "xs = butlast xs @ [last xs]" by simp
  with d have "distinct_adj (butlast xs @ [last xs])" by simp
  then show ?thesis by (simp add: distinct_adj_append_iff)
qed

lemma drop_trailing_user_alternating:
  "distinct_adj (map c_role cs) \<Longrightarrow> distinct_adj (map c_role (drop_trailing_user cs))"
  by (auto simp: drop_trailing_user_def map_butlast distinct_adj_butlast)

lemma drop_trailing_user_last:
  assumes "distinct_adj (map c_role cs)" and "drop_trailing_user cs \<noteq> []"
  shows "c_role (last (drop_trailing_user cs)) \<noteq> User"
proof (cases "cs \<noteq> [] \<and> c_role (last cs) = User")
  case False
  with assms(2) show ?thesis by (auto simp: drop_trailing_user_def)
next
  case True
  then have eq: "drop_trailing_user cs = butlast cs" by (simp add: drop_trailing_user_def)
  with assms(2) have ne: "butlast cs \<noteq> []" by simp
  from True have "cs = butlast cs @ [last cs]" by simp
  then have "map c_role cs = map c_role (butlast cs) @ [c_role (last cs)]"
    by (metis list.simps(8,9) map_append)
  with assms(1) have "distinct_adj (map c_role (butlast cs) @ [c_role (last cs)])" by simp
  with ne have "last (map c_role (butlast cs)) \<noteq> c_role (last cs)"
    by (simp add: distinct_adj_append_iff)
  with ne True have "c_role (last (butlast cs)) \<noteq> User" by (simp add: last_map)
  then have "c_role (last (butlast cs)) \<noteq> User" .
  with eq show ?thesis by simp
qed

text \<open>
  C1. For every history, whatever its length and whatever is stored in its text fields, the
  transcript built by the sanitization inside chatWithLumi has at most 30 entries, no two
  adjacent entries with the same role, only entries whose text is a non-empty string (not
  even blank), and a last entry, if there is one, whose role is not user.
\<close>

theorem sanitizeHistory_wellformed:
  "length (sanitizeHistory history) \<le> 30 \<and>
   distinct_adj (map c_role (sanitizeHistory history)) \<and>
   (\<forall>c \<in> set (sanitizeHistory history). c_text c \<noteq> [] \<and> trim (c_text c) \<noteq> []) \<and>
   (sanitizeHistory history \<noteq> [] \<longrightarrow> c_role (last (sanitizeHistory history)) \<noteq> User)"
proof -
  let ?loop = "sanitize_loop [] None (slice_last 30 history)"
  have len: "length ?loop \<le> 30"
    using sanitize_loop_length [of "[]" None "slice_last 30 history"]
    by (simp add: slice_last_def)
  have alt: "distinct_adj (map c_role ?loop)"
    by (rule sanitize_loop_alternating) (simp_all add: tracks_def)
  have "list_all (\<lambda>c. trim (c_text c) \<noteq> []) ?loop"
    by (rule sanitize_loop_texts) simp
  then have texts: "\<forall>c \<in> set ?loop. trim (c_text c) \<noteq> []"
    by (simp add: list_all_iff)
  have "length (sanitizeHistory history) \<le> 30"
    using len drop_trailing_user_length [of ?loop] by (simp add: sanitizeHistory_def)
  moreover have "distinct_adj (map c_role (sanitizeHistory history))"
    using alt by (simp add: sanitizeHistory_def drop_trailing_user_alternating)
  moreover have "\<forall>c \<in> set (sanitizeHistory history). c_text c \<noteq> [] \<and> trim (c_text c) \<noteq> []"
  proof
    fix c
    assume "c \<in> set (sanitizeHistory history)"
    then have "c \<in> set ?loop"
      using drop_trailing_user_subset [of ?loop] by (auto simp: sanitizeHistory_def)
    with texts have "trim (c_text c) \<noteq> []" by blast
    then show "c_text c \<noteq> [] \<and> trim (c_text c) \<noteq> []"
      using trim_Nil by auto
  qed
  moreover have "sanitizeHistory history \<noteq> [] \<longrightarrow> c_role (last (sanitizeHistory history)) \<noteq> User"
    using alt drop_trailing_user_last [of ?loop] by (simp add: sanitizeHistory_def)
  ultimately show ?thesis by blast
qed

theorem sanitizeHistory_wellformed_witness:
  "sanitizeHistory
     [\<lparr>h_role = User, h_text = TextStr [0x61]\<rparr>, \<lparr>h_role = User, h_text = TextOther\<rparr>,
      \<lparr>h_role = Model, h_text = TextStr [0x62]\<rparr>, \<lparr>h_role = User, h_text = TextStr [0x63]\<rparr>]
     = [\<lparr>c_role = User, c_text = [0x61]\<rparr>, \<lparr>c_role = Model, c_text = [0x62]\<rparr>] \<and>
   c_role (last (sanitizeHistory
     [\<lparr>h_role = User, h_text = TextStr [0x61]\<rparr>, \<lparr>h_role = User, h_text = TextOther\<rparr>,
      \<lparr>h_role = Model, h_text = TextStr [0x62]\<rparr>, \<lparr>h_role = User, h_text = TextStr [0x63]\<rparr>]))
     \<noteq> User"
proof -
  let ?h = "[\<lparr>h_role = User, h_text = TextStr [0x61]\<rparr>, \<lparr>h_role = User, h_text = TextOther\<rparr>,
      \<lparr>h_role = Model, h_text = TextStr [0x62]\<rparr>, \<lparr>h_role = User, h_text = TextStr [0x63]\<rparr>]"
  have out: "sanitizeHistory ?h
     = [\<lparr>c_role = User, c_text = [0x61]\<rparr>, \<lparr>c_role = Model, c_text = [0x62]\<rparr>]"
    by (simp add: sanitizeHistory_def slice_last_def skip_text_def trim_def is_space_def
        text_of_def drop_trailing_user_def)
  then have ne: "sanitizeHistory ?h \<noteq> []" by simp
  from sanitizeHistory_wellformed [of ?h] ne
  have "c_role (last (sanitizeHistory ?h)) \<noteq> User" by blast
  with out show ?thesis by blast
qed

text \<open>
  C6, as stated, fails: of two consecutive user turns it is the later one that the loop skips,
  so the text kept is that of the earlier turn.
\<close>

theorem sanitizeHistory_duplicate_counterexample:
  "sanitizeHistory
     [\<lparr>h_role = User, h_text = TextStr [0x61]\<rparr>, \<lparr>h_role = User, h_text = TextStr [0x62]\<rparr>,
      \<lparr>h_role = Model, h_text = TextStr [0x63]\<rparr>]
     = [\<lparr>c_role = User, c_text = [0x61]\<rparr>, \<lparr>c_role = Model, c_text = [0x63]\<rparr>] \<and>
   sanitizeHistory
     [\<lparr>h_role = User, h_text = TextStr [0x61]\<rparr>, \<lparr>h_role = User, h_text = TextStr [0x62]\<rparr>,
      \<lparr>h_role = Model, h_text = TextStr [0x63]\<rparr>]
     \<noteq> [\<lparr>c_role = User, c_text = [0x62]\<rparr>, \<lparr>c_role = Model, c_text = [0x63]\<rparr>]"
  by (simp add: sanitizeHistory_def slice_last_def skip_text_def trim_def is_space_def
      text_of_def drop_trailing_user_def)

text \<open>
  C6, amended. For every history of two consecutive user turns followed by one model turn, all
  three with text that is not blank, the sanitizer returns exactly two turns, user then model:
  the earlier user turn with its text, and the model turn. The later user turn is dropped.
\<close>

theorem sanitizeHistory_duplicate_user:
  assumes "trim t1 \<noteq> []" and "trim t2 \<noteq> []" and "trim t3 \<noteq> []"
  shows "sanitizeHistory
     [\<lparr>h_role = User, h_text = TextStr t1\<rparr>, \<lparr>h_role = User, h_text = TextStr t2\<rparr>,
      \<lparr>h_role = Model, h_text = TextStr t3\<rparr>]
     = [\<lparr>c_role = User, c_text = t1\<rparr>, \<lparr>c_role = Model, c_text = t3\<rparr>]"
proof -
  from assms have "t1 \<noteq> []" and "t2 \<noteq> []" and "t3 \<noteq> []"
    using trim_Nil by auto
  with assms show ?thesis
    by (simp add: sanitizeHistory_def slice_last_def skip_text_def text_of_def
        drop_trailing_user_def)
qed

theorem sanitizeHistory_duplicate_user_witness:
  "trim [0x61] \<noteq> [] \<and> trim [0x62] \<noteq> [] \<and> trim [0x63] \<noteq> [] \<and>
   sanitizeHistory
     [\<lparr>h_role = User, h_text = TextStr [0x61]\<rparr>, \<lparr>h_role = User, h_text = TextStr [0x62]\<rparr>,
      \<lparr>h_role = Model, h_text = TextStr [0x63]\<rparr>]
     = [\<lparr>c_role = User, c_text = [0x61]\<rparr>, \<lparr>c_role = Model, c_text = [0x63]\<rparr>]"
proof -
  have a: "trim [0x61] \<noteq> []" and b: "trim [0x62] \<noteq> []" and c: "trim [0x63] \<noteq> []"
    by (simp_all add: trim_def is_space_def)
  from a b c sanitizeHistory_duplicate_user [OF a b c] show ?thesis by blast
qed

lemma replace_marker_subset: "set (replace_marker m s) \<subseteq> set s"
proof (induction m s rule: replace_marker.induct)
  case (1 marker)
  show ?case by simp
next
  case (2 marker c cs)
  show ?case
  proof (cases "marker \<noteq> [] \<and> take (length marker) (c # cs) = marker")
    case True
    then have "set (replace_marker marker (c # cs))
                 \<subseteq> set (dropWhile is_space (drop (length marker) (c # cs)))"
      using "2.IH"(1) by simp
    also have "\<dots> \<subseteq> set (drop (length marker) (c # cs))"
      by (rule set_dropWhileD [THEN subsetI])
    also have "\<dots> \<subseteq> set (c # cs)" by (rule set_drop_subset)
    finally show ?thesis .
  next
    case False
    then have "set (replace_marker marker cs) \<subseteq> set cs" using "2.IH"(2) by simp
    with False show ?thesis by auto
  qed
qed

lemma trim_all_space: "\<forall>c \<in> set s. is_space c \<Longrightarrow> trim s = []"
  by (auto simp: trim_def dest: set_dropWhileD)

lemma cleanJsonString_blank:
  assumes "s \<noteq> []" and "\<forall>c \<in> set s. is_space c"
  shows "trim (cleanJsonString s) = []"
proof -
  have "set (replace_marker fence (replace_marker fence_json s)) \<subseteq> set s"
    using replace_marker_subset [of fence "replace_marker fence_json s"]
      replace_marker_subset [of fence_json s] by blast
  with assms(2) have "\<forall>c \<in> set (replace_marker fence (replace_marker fence_json s)). is_space c"
    by blast
  then have "trim (replace_marker fence (replace_marker fence_json s)) = []"
    by (rule trim_all_space)
  with assms(1) show ?thesis by (simp add: cleanJsonString_def trim_Nil)
qed

lemma cleanJsonString_ellipsis: "cleanJsonString ELLIPSIS_TEXT = ELLIPSIS_TEXT"
  by (simp add: cleanJsonString_def ELLIPSIS_TEXT_def fence_def fence_json_def trim_def is_space_def)

lemma trim_ellipsis: "trim ELLIPSIS_TEXT = ELLIPSIS_TEXT"
  by (simp add: ELLIPSIS_TEXT_def trim_def is_space_def)

lemma chat_texts_distinct:
  "CHAT_ERROR_TEXT \<noteq> [] \<and> BLOCKED_PLACEHOLDER \<noteq> [] \<and> ELLIPSIS_TEXT \<noteq> [] \<and>
   CHAT_ERROR_TEXT \<noteq> BLOCKED_PLACEHOLDER \<and> ELLIPSIS_TEXT \<noteq> BLOCKED_PLACEHOLDER \<and>
   ELLIPSIS_TEXT \<noteq> CHAT_ERROR_TEXT"
  by (simp add: CHAT_ERROR_TEXT_def BLOCKED_PLACEHOLDER_def ELLIPSIS_TEXT_def)

text \<open>
  C8, as stated, fails in two places. With no API key in the environment the call is rejected
  with the error of getAiClient, which is raised before the \<^verbatim>\<open>try\<close> block is entered. And an
  empty model response does not give the placeholder for blocked answers: it gives the
  two-character text that stands in for a missing \<^verbatim>\<open>result.text\<close>.
\<close>

theorem chatWithLumi_counterexample:
  "chatWithLumi \<lparr>aistudio_apiKey = None, env_apiKey = None\<rparr> (\<lambda>h m. ChatResult (Some [0x61])) [] [0x62]
     = Inl ApiKeyRequired \<and>
   chatWithLumi \<lparr>aistudio_apiKey = None, env_apiKey = Some [0x6B]\<rparr> (\<lambda>h m. ChatResult (Some [])) [] [0x62]
     = Inr ELLIPSIS_TEXT \<and>
   ELLIPSIS_TEXT \<noteq> BLOCKED_PLACEHOLDER"
  by (simp add: chatWithLumi_def getAiClient_def truthy_str_def str_or_def
      cleanJsonString_ellipsis trim_ellipsis)
     (simp add: ELLIPSIS_TEXT_def BLOCKED_PLACEHOLDER_def)

text \<open>
  C8, amended. When no API key is configured, chatWithLumi is rejected with the error of
  getAiClient. When one is configured, then for every history, message and behaviour of the
  generation capability it returns a non-empty string: the fixed fallback text when the
  capability throws; the two-character ellipsis text when the response text is empty or
  undefined; the fixed placeholder, which differs from the fallback, when the response text
  is white space only or is otherwise empty once it is cleaned and trimmed; and else the
  cleaned and trimmed response text.
\<close>

theorem chatWithLumi_safe:
  "(\<forall>e. getAiClient env = Inl e \<longrightarrow> chatWithLumi env send history message = Inl e) \<and>
   (\<forall>ai. getAiClient env = Inr ai \<longrightarrow>
     (\<exists>s. chatWithLumi env send history message = Inr s \<and> s \<noteq> [] \<and>
       (send (sanitizeHistory history) message = ChatThrows \<longrightarrow> s = CHAT_ERROR_TEXT) \<and>
       (\<forall>t. send (sanitizeHistory history) message = ChatResult t \<longrightarrow>
          (\<not> truthy_str t \<longrightarrow> s = ELLIPSIS_TEXT) \<and>
          (truthy_str t \<and> (\<forall>c \<in> set (str_or t ELLIPSIS_TEXT). is_space c)
             \<longrightarrow> s = BLOCKED_PLACEHOLDER) \<and>
          (trim (cleanJsonString (str_or t ELLIPSIS_TEXT)) = [] \<longrightarrow>
             s = BLOCKED_PLACEHOLDER) \<and>
          (trim (cleanJsonString (str_or t ELLIPSIS_TEXT)) \<noteq> [] \<longrightarrow>
             s = trim (cleanJsonString (str_or t ELLIPSIS_TEXT)))))) \<and>
   CHAT_ERROR_TEXT \<noteq> BLOCKED_PLACEHOLDER"
proof (intro conjI allI impI)
  fix e
  assume "getAiClient env = Inl e"
  then show "chatWithLumi env send history message = Inl e"
    by (simp add: chatWithLumi_def)
next
  show "CHAT_ERROR_TEXT \<noteq> BLOCKED_PLACEHOLDER"
    using chat_texts_distinct by blast
next
  fix ai
  assume key: "getAiClient env = Inr ai"
  show "\<exists>s. chatWithLumi env send history message = Inr s \<and> s \<noteq> [] \<and>
       (send (sanitizeHistory history) message = ChatThrows \<longrightarrow> s = CHAT_ERROR_TEXT) \<and>
       (\<forall>t. send (sanitizeHistory history) message = ChatResult t \<longrightarrow>
          (\<not> truthy_str t \<longrightarrow> s = ELLIPSIS_TEXT) \<and>
          (truthy_str t \<and> (\<forall>c \<in> set (str_or t ELLIPSIS_TEXT). is_space c)
             \<longrightarrow> s = BLOCKED_PLACEHOLDER) \<and>
          (trim (cleanJsonString (str_or t ELLIPSIS_TEXT)) = [] \<longrightarrow>
             s = BLOCKED_PLACEHOLDER) \<and>
          (trim (cleanJsonString (str_or t ELLIPSIS_TEXT)) \<noteq> [] \<longrightarrow>
             s = trim (cleanJsonString (str_or t ELLIPSIS_TEXT))))"
  proof (cases "send (sanitizeHistory history) message")
    case ChatThrows
    with key show ?thesis
      using chat_texts_distinct by (simp add: chatWithLumi_def)
  next
    case (ChatResult t)
    let ?text = "cleanJsonString (str_or t ELLIPSIS_TEXT)"
    let ?s = "if trim ?text = [] then BLOCKED_PLACEHOLDER else trim ?text"
    have res: "chatWithLumi env send history message = Inr ?s"
      using key ChatResult by (simp add: chatWithLumi_def Let_def)
    have ne: "?s \<noteq> []" using chat_texts_distinct by simp
    have empty: "?s = ELLIPSIS_TEXT" if "\<not> truthy_str t"
    proof -
      from that have "str_or t ELLIPSIS_TEXT = ELLIPSIS_TEXT"
        by (cases t) (simp_all add: truthy_str_def str_or_def)
      then show ?thesis
        using chat_texts_distinct by (simp add: cleanJsonString_ellipsis trim_ellipsis)
    qed
    have blank: "?s = BLOCKED_PLACEHOLDER"
      if "truthy_str t" and "\<forall>c \<in> set (str_or t ELLIPSIS_TEXT). is_space c"
    proof -
      from that(1) have "str_or t ELLIPSIS_TEXT \<noteq> []"
        by (cases t) (simp_all add: truthy_str_def str_or_def)
      with that(2) have "trim ?text = []" by (simp add: cleanJsonString_blank)
      then show ?thesis by simp
    qed
    from res ne empty blank ChatResult show ?thesis by auto
  qed
qed

theorem chatWithLumi_safe_witness:
  "getAiClient \<lparr>aistudio_apiKey = None, env_apiKey = Some [0x6B]\<rparr> = Inr [0x6B] \<and>
   chatWithLumi \<lparr>aistudio_apiKey = None, env_apiKey = Some [0x6B]\<rparr>
     (\<lambda>h m. ChatResult (Some [0x20])) [] [0x62] = Inr BLOCKED_PLACEHOLDER \<and>
   getAiClient \<lparr>aistudio_apiKey = None, env_apiKey = None\<rparr> = Inl ApiKeyRequired \<and>
   chatWithLumi \<lparr>aistudio_apiKey = None, env_apiKey = None\<rparr>
     (\<lambda>h m. ChatResult (Some [0x20])) [] [0x62] = Inl ApiKeyRequired"
proof -
  let ?env = "\<lparr>aistudio_apiKey = None, env_apiKey = Some [0x6B]\<rparr>"
  let ?none = "\<lparr>aistudio_apiKey = None, env_apiKey = None\<rparr>"
  let ?send = "\<lambda>(h :: content list) (m :: jsstring). ChatResult (Some [0x20])"
  have key: "getAiClient ?env = Inr [0x6B]"
    by (simp add: getAiClient_def truthy_str_def)
  have nokey: "getAiClient ?none = Inl ApiKeyRequired"
    by (simp add: getAiClient_def truthy_str_def)
  have sp: "truthy_str (Some [0x20]) \<and> (\<forall>c \<in> set (str_or (Some [0x20]) ELLIPSIS_TEXT). is_space c)"
    by (simp add: truthy_str_def str_or_def is_space_def)
  from chatWithLumi_safe [of ?env ?send "[]" "[0x62]"] key sp
  have a: "chatWithLumi ?env ?send [] [0x62] = Inr BLOCKED_PLACEHOLDER" by auto
  from chatWithLumi_safe [of ?none ?send "[]" "[0x62]"] nokey
  have b: "chatWithLumi ?none ?send [] [0x62] = Inl ApiKeyRequired" by blast
  from key a nokey b show ?thesis by blast
qed

section \<open>Properties of analyzeMeal\<close>

lemma Math_round_int: "Math_round x \<in> \<int>"
  by (simp add: Math_round_def)

lemma Math_round_near: "x - 1 / 2 < Math_round x \<and> Math_round x \<le> x + 1 / 2"
  unfolding Math_round_def by linarith

lemma Math_round_of_int: "Math_round (of_int k) = of_int k"
  unfolding Math_round_def by (simp add: floor_eq_iff)

lemma Math_round_zero: "Math_round 0 = 0"
  using Math_round_of_int [of 0] by simp

lemma unit_roundoff_bounds: "0 < unit_roundoff \<and> unit_roundoff \<le> 1 / 2"
  by (simp add: unit_roundoff_def)

lemma exact_arith_accurate: "accurate exact_arith"
  using unit_roundoff_bounds by (simp add: accurate_def exact_arith_def)

lemma accurate_mul:
  "accurate ar \<Longrightarrow> in_range (x * y) \<Longrightarrow> \<bar>num_mul ar x y - x * y\<bar> \<le> unit_roundoff * \<bar>x * y\<bar>"
  by (simp add: accurate_def)

lemma accurate_div:
  "accurate ar \<Longrightarrow> y \<noteq> 0 \<Longrightarrow> in_range (x / y)
     \<Longrightarrow> \<bar>num_div ar x y - x / y\<bar> \<le> unit_roundoff * \<bar>x / y\<bar>"
  by (simp add: accurate_def)

lemma in_range_zero: "in_range 0"
  by (simp add: in_range_def)

lemma in_range_between: "1 / 2 ^ 40 \<le> \<bar>x\<bar> \<Longrightarrow> \<bar>x\<bar> \<le> 2 ^ 40 \<Longrightarrow> in_range x"
proof -
  assume a: "1 / 2 ^ 40 \<le> \<bar>x\<bar>" and b: "\<bar>x\<bar> \<le> 2 ^ 40"
  have "(1 :: rat) / 2 ^ 1022 \<le> 1 / 2 ^ 40"
    by (rule divide_left_mono) (simp_all add: power_increasing)
  with a have lo: "1 / 2 ^ 1022 \<le> \<bar>x\<bar>" by linarith
  have "(2 :: rat) ^ 40 < 2 ^ 1023" by (rule power_strict_increasing) simp_all
  with b have "\<bar>x\<bar> < 2 ^ 1023" by linarith
  with lo show ?thesis by (simp only: in_range_def) blast
qed

lemma mul_zero: "accurate ar \<Longrightarrow> num_mul ar 0 y = 0"
  using accurate_mul [of ar 0 y] by (simp add: in_range_zero)

lemma div_zero: "accurate ar \<Longrightarrow> y \<noteq> 0 \<Longrightarrow> num_div ar 0 y = 0"
  using accurate_div [of ar y 0] by (simp add: in_range_zero)

lemma tenth_zero: "accurate ar \<Longrightarrow> num_div ar (Math_round (num_mul ar 0 10)) 10 = 0"
  by (simp add: mul_zero Math_round_zero div_zero)

lemma in_range_tenths:
  assumes "\<bar>(of_int k :: rat)\<bar> \<le> 2 ^ 1024"
  shows "in_range (of_int k / 10)"
proof (cases "k = 0")
  case True
  then show ?thesis by (simp add: in_range_zero)
next
  case False
  then have "1 \<le> \<bar>k\<bar>" by simp
  then have "(1 :: rat) \<le> \<bar>of_int k\<bar>"
    by (metis of_int_1 of_int_abs of_int_le_iff)
  then have one: "(1 :: rat) / 10 \<le> \<bar>of_int k / 10\<bar>" by simp
  have "(1 :: rat) / 2 ^ 1022 \<le> 1 / 2 ^ 4"
    by (rule divide_left_mono) (simp_all add: power_increasing)
  also have "\<dots> \<le> 1 / 10" by simp
  finally have lo: "(1 :: rat) / 2 ^ 1022 \<le> \<bar>of_int k / 10\<bar>" using one by linarith
  have "\<bar>(of_int k :: rat) / 10\<bar> \<le> 2 ^ 1024 / 10" using assms by simp
  also have "\<dots> < (2 :: rat) ^ 1023"
  proof -
    have "(2 :: rat) ^ 1024 = 2 * 2 ^ 1023" by (simp only: power_Suc [symmetric]) simp
    then show ?thesis by simp
  qed
  finally have "\<bar>(of_int k :: rat) / 10\<bar> < 2 ^ 1023" .
  with lo show ?thesis by (simp only: in_range_def) blast
qed

lemma tenth_accurate:
  assumes acc: "accurate ar" and r: "in_range (x * 10)"
  shows "near_tenth x (num_div ar (Math_round (num_mul ar x 10)) 10)"
proof -
  let ?t = "num_mul ar x 10"
  let ?k = "\<lfloor>?t + 1 / 2\<rfloor>"
  have t: "\<bar>?t - x * 10\<bar> \<le> unit_roundoff * \<bar>x * 10\<bar>"
    using accurate_mul [OF acc r] .
  have k: "\<bar>of_int ?k - ?t\<bar> \<le> 1 / 2" by linarith
  from t k have k1: "\<bar>of_int ?k - x * 10\<bar> \<le> 1 / 2 + unit_roundoff * \<bar>x * 10\<bar>" by linarith
  have xb: "\<bar>x * 10\<bar> < 2 ^ 1023 \<or> x * 10 = 0" using r by (auto simp: in_range_def)
  have u: "unit_roundoff * \<bar>x * 10\<bar> \<le> 1 / 2 * \<bar>x * 10\<bar>"
    using unit_roundoff_bounds by (intro mult_right_mono) simp_all
  have p: "(2 :: rat) ^ 1024 = 2 * 2 ^ 1023" by (simp only: power_Suc [symmetric]) simp
  have big: "(1 :: rat) \<le> 2 ^ 1023" by (rule one_le_power) simp
  from k1 u have "\<bar>(of_int ?k :: rat)\<bar> \<le> 1 / 2 + 3 / 2 * \<bar>x * 10\<bar>" by linarith
  with xb big p have kb: "\<bar>(of_int ?k :: rat)\<bar> \<le> 2 ^ 1024" by (elim disjE) linarith+
  have "\<bar>num_div ar (of_int ?k) 10 - of_int ?k / 10\<bar> \<le> unit_roundoff * \<bar>of_int ?k / 10\<bar>"
    by (rule accurate_div [OF acc _ in_range_tenths [OF kb]]) simp
  with k1 show ?thesis
    unfolding near_tenth_def Math_round_def by blast
qed

lemma sample_key: "getAiClient sample_env = Inr [0x006B, 0x0065, 0x0079]"
  by (simp add: getAiClient_def sample_env_def truthy_str_def)

lemma no_key: "getAiClient no_key_env = Inl ApiKeyRequired"
  by (simp add: getAiClient_def no_key_env_def truthy_str_def)

lemma braces_not_empty: "braces \<noteq> []"
  by (simp add: braces_def)

lemma analyzeMeal_parsed:
  assumes "getAiClient env = Inr ai" and "rt \<noteq> []"
    and "parse (cleanJsonString rt) = ParsedObj r"
  shows "analyzeMeal ar env (GenText (Some rt)) parse lib today now uuid
           = Inr (decide ar lib today now uuid r)"
  using assms by (simp add: analyzeMeal_def)

lemma meal_texts_distinct:
  "PARSE_FAILURE_TEXT \<noteq> TRANSPORT_FAILURE_TEXT \<and> DEFAULT_FEEDBACK \<noteq> PARSE_FAILURE_TEXT"
  by (simp add: PARSE_FAILURE_TEXT_def TRANSPORT_FAILURE_TEXT_def DEFAULT_FEEDBACK_def)

lemma sample_today: "todayStr sample_clock = [0x32, 0x30, 0x32, 0x36, 0x2D, 0x30, 0x31, 0x2D, 0x30, 0x35]"
  by (simp add: todayStr_def sample_clock_def decimal.simps padStart2_def)

lemma sample_time:
  "getHours sample_clock = 12" "getMinutes sample_clock = 30" "getSeconds sample_clock = 15"
  by (simp_all add: sample_clock_def)

lemma sample_timestamp:
  "resolve_timestamp sample_lib sample_clock sample_clock None = Num 1767616215000"
  by (simp add: resolve_timestamp_def sample_today sample_time str_or_def sample_lib_def
      element_def to_number_def minus_one_def newDate_def setHours_def sample_Number_def
      sample_fromYMD_def sample_withHours_def days_from_civil_def Let_def)

text \<open>
  C3, as stated, fails: a negative number is rounded like any other and is not replaced by
  zero. For calories and protein of -5 the proposed meal has calories -5 and protein -5.
\<close>

theorem analyzeMeal_negative_counterexample:
  "analyzeMeal exact_arith sample_env (GenText (Some braces))
     (\<lambda>s. ParsedObj \<lparr>is_food_related = Some True, feedback = None, confirmation_message = None,
        target_date = None,
        meal_data = Some \<lparr>md_name = None, md_calories = Some (- 5), md_protein = Some (- 5),
                          md_fat = None, md_carbs = None\<rparr>\<rparr>)
     sample_lib sample_clock sample_clock []
   = Inr \<lparr>a_text = DEFAULT_FEEDBACK,
          a_meal = Some \<lparr>ml_id = [], ml_timestamp = Num 1767616215000,
                         ml_name = DEFAULT_MEAL_NAME,
                         ml_calories = - 5, ml_protein = - 5, ml_fat = 0, ml_carbs = 0,
                         ml_imageUrl = None, ml_imagePath = None,
                         ml_confirmationMessage = Some DEFAULT_CONFIRMATION\<rparr>\<rparr>"
proof -
  have c: "Math_round (- 5) = - 5" using Math_round_of_int [of "- 5"] by simp
  have p: "Math_round (- 50) = - 50" using Math_round_of_int [of "- 50"] by simp
  show ?thesis
    by (simp add: analyzeMeal_def sample_key braces_not_empty decide_def mealLog_of_def
        str_or_def num_or_zero_def exact_arith_def c p sample_timestamp Math_round_zero)
qed

text \<open>
  C3, amended. For every numeric or missing value of calories, protein, fat and carbs in a
  parsed response that is food related and carries meal data, the proposed meal has calories
  that are an integer, the nearest one to the given value, and macros that are the given
  value rounded to one decimal place, as far as doubles allow (for a value whose tenfold
  lies in the range of the normal doubles); a missing field counts as zero. Negative values
  are rounded in the same way: they are not replaced by zero.
\<close>

theorem analyzeMeal_rounding:
  assumes "getAiClient env = Inr ai" and "rt \<noteq> []"
    and "parse (cleanJsonString rt) = ParsedObj r"
    and "is_food_related r = Some True" and "meal_data r = Some md"
    and acc: "accurate ar"
    and rp: "in_range (num_or_zero (md_protein md) * 10)"
    and rf: "in_range (num_or_zero (md_fat md) * 10)"
    and rc: "in_range (num_or_zero (md_carbs md) * 10)"
  shows "\<exists>m. analyzeMeal ar env (GenText (Some rt)) parse lib today now uuid
               = Inr \<lparr>a_text = str_or (feedback r) DEFAULT_FEEDBACK, a_meal = Some m\<rparr> \<and>
     ml_calories m \<in> \<int> \<and>
     num_or_zero (md_calories md) - 1 / 2 < ml_calories m \<and>
     ml_calories m \<le> num_or_zero (md_calories md) + 1 / 2 \<and>
     near_tenth (num_or_zero (md_protein md)) (ml_protein m) \<and>
     near_tenth (num_or_zero (md_fat md)) (ml_fat m) \<and>
     near_tenth (num_or_zero (md_carbs md)) (ml_carbs m) \<and>
     (md_calories md = None \<longrightarrow> ml_calories m = 0) \<and>
     (md_protein md = None \<longrightarrow> ml_protein m = 0) \<and>
     (md_fat md = None \<longrightarrow> ml_fat m = 0) \<and>
     (md_carbs md = None \<longrightarrow> ml_carbs m = 0)"
proof -
  let ?m = "mealLog_of ar uuid (resolve_timestamp lib today now (target_date r)) r md"
  have res: "analyzeMeal ar env (GenText (Some rt)) parse lib today now uuid
               = Inr \<lparr>a_text = str_or (feedback r) DEFAULT_FEEDBACK, a_meal = Some ?m\<rparr>"
    using assms(1-5) by (simp add: analyzeMeal_parsed [where ai = ai] decide_def)
  have cal: "ml_calories ?m = Math_round (num_or_zero (md_calories md))"
    and pro: "ml_protein ?m
                = num_div ar (Math_round (num_mul ar (num_or_zero (md_protein md)) 10)) 10"
    and fat: "ml_fat ?m = num_div ar (Math_round (num_mul ar (num_or_zero (md_fat md)) 10)) 10"
    and car: "ml_carbs ?m
                = num_div ar (Math_round (num_mul ar (num_or_zero (md_carbs md)) 10)) 10"
    by (simp_all add: mealLog_of_def)
  have zero: "num_or_zero None = 0" by (simp add: num_or_zero_def)
  have c1: "ml_calories ?m \<in> \<int>" unfolding cal by (rule Math_round_int)
  have c2: "num_or_zero (md_calories md) - 1 / 2 < ml_calories ?m \<and>
            ml_calories ?m \<le> num_or_zero (md_calories md) + 1 / 2"
    unfolding cal by (rule Math_round_near)
  have p1: "near_tenth (num_or_zero (md_protein md)) (ml_protein ?m)"
    unfolding pro using acc rp by (rule tenth_accurate)
  have f1: "near_tenth (num_or_zero (md_fat md)) (ml_fat ?m)"
    unfolding fat using acc rf by (rule tenth_accurate)
  have k1: "near_tenth (num_or_zero (md_carbs md)) (ml_carbs ?m)"
    unfolding car using acc rc by (rule tenth_accurate)
  have z1: "md_calories md = None \<longrightarrow> ml_calories ?m = 0"
    by (simp add: cal zero Math_round_zero)
  have z2: "md_protein md = None \<longrightarrow> ml_protein ?m = 0"
    using tenth_zero [OF acc] by (simp add: pro zero)
  have z3: "md_fat md = None \<longrightarrow> ml_fat ?m = 0"
    using tenth_zero [OF acc] by (simp add: fat zero)
  have z4: "md_carbs md = None \<longrightarrow> ml_carbs ?m = 0"
    using tenth_zero [OF acc] by (simp add: car zero)
  from res c1 c2 p1 f1 k1 z1 z2 z3 z4 show ?thesis
    by (intro exI [of _ ?m] conjI) (elim conjE, assumption)+
qed

theorem analyzeMeal_rounding_witness:
  "getAiClient sample_env = Inr [0x006B, 0x0065, 0x0079] \<and> braces \<noteq> [] \<and>
   accurate exact_arith \<and>
   in_range (num_or_zero (md_protein sample_meal_data) * 10) \<and>
   in_range (num_or_zero (md_fat sample_meal_data) * 10) \<and>
   in_range (num_or_zero (md_carbs sample_meal_data) * 10) \<and>
   (\<exists>m. analyzeMeal exact_arith sample_env (GenText (Some braces))
          (\<lambda>s. ParsedObj (empty_response\<lparr>is_food_related := Some True,
                                            meal_data := Some sample_meal_data\<rparr>))
          sample_lib sample_clock sample_clock []
        = Inr \<lparr>a_text = DEFAULT_FEEDBACK, a_meal = Some m\<rparr> \<and>
        ml_calories m \<in> \<int> \<and> near_tenth 20 (ml_protein m)) \<and>
   md_calories missing_meal_data = None \<and> md_protein missing_meal_data = None \<and>
   (\<exists>m. analyzeMeal exact_arith sample_env (GenText (Some braces))
          (\<lambda>s. ParsedObj (empty_response\<lparr>is_food_related := Some True,
                                            meal_data := Some missing_meal_data\<rparr>))
          sample_lib sample_clock sample_clock []
        = Inr \<lparr>a_text = DEFAULT_FEEDBACK, a_meal = Some m\<rparr> \<and>
        ml_calories m = 0 \<and> ml_protein m = 0)"
proof -
  let ?r = "empty_response\<lparr>is_food_related := Some True, meal_data := Some sample_meal_data\<rparr>"
  let ?parse = "\<lambda>s :: jsstring. ParsedObj ?r"
  let ?r_m = "empty_response\<lparr>is_food_related := Some True, meal_data := Some missing_meal_data\<rparr>"
  let ?parse_m = "\<lambda>s :: jsstring. ParsedObj ?r_m"
  have h3: "?parse (cleanJsonString braces) = ParsedObj ?r" by simp
  have h4: "is_food_related ?r = Some True" by simp
  have h5: "meal_data ?r = Some sample_meal_data" by simp
  have fb: "str_or (feedback ?r) DEFAULT_FEEDBACK = DEFAULT_FEEDBACK"
    by (simp add: empty_response_def str_or_def)
  have v: "num_or_zero (md_protein sample_meal_data) = 20"
    "num_or_zero (md_fat sample_meal_data) = 15"
    "num_or_zero (md_carbs sample_meal_data) = 60"
    by (simp_all add: sample_meal_data_def num_or_zero_def)
  have "(1 :: rat) / 2 ^ 40 \<le> 150" and "(600 :: rat) \<le> 2 ^ 40" by simp_all
  then have "in_range 200" and "in_range 150" and "in_range 600"
    by (intro in_range_between; simp)+
  then have rp: "in_range (num_or_zero (md_protein sample_meal_data) * 10)"
    and rf: "in_range (num_or_zero (md_fat sample_meal_data) * 10)"
    and rc: "in_range (num_or_zero (md_carbs sample_meal_data) * 10)"
    by (simp_all add: v)
  from analyzeMeal_rounding [OF sample_key braces_not_empty h3 h4 h5 exact_arith_accurate
      rp rf rc, of sample_lib sample_clock sample_clock "[]"]
  obtain m where
    "analyzeMeal exact_arith sample_env (GenText (Some braces)) ?parse
         sample_lib sample_clock sample_clock []
       = Inr \<lparr>a_text = str_or (feedback ?r) DEFAULT_FEEDBACK, a_meal = Some m\<rparr>"
    and "ml_calories m \<in> \<int>"
    and "near_tenth (num_or_zero (md_protein sample_meal_data)) (ml_protein m)"
    by blast
  with fb v have first: "\<exists>m. analyzeMeal exact_arith sample_env (GenText (Some braces)) ?parse
                       sample_lib sample_clock sample_clock []
                     = Inr \<lparr>a_text = DEFAULT_FEEDBACK, a_meal = Some m\<rparr> \<and>
                     ml_calories m \<in> \<int> \<and> near_tenth 20 (ml_protein m)"
    by auto
  have g3: "?parse_m (cleanJsonString braces) = ParsedObj ?r_m" by simp
  have g4: "is_food_related ?r_m = Some True" by simp
  have g5: "meal_data ?r_m = Some missing_meal_data" by simp
  have fb0: "str_or (feedback ?r_m) DEFAULT_FEEDBACK = DEFAULT_FEEDBACK"
    by (simp add: empty_response_def str_or_def)
  have n: "md_calories missing_meal_data = None" "md_protein missing_meal_data = None"
    "md_fat missing_meal_data = None" "md_carbs missing_meal_data = None"
    by (simp_all add: missing_meal_data_def)
  have z: "in_range (num_or_zero (md_protein missing_meal_data) * 10)"
    "in_range (num_or_zero (md_fat missing_meal_data) * 10)"
    "in_range (num_or_zero (md_carbs missing_meal_data) * 10)"
    by (simp_all add: n num_or_zero_def in_range_zero)
  from analyzeMeal_rounding [OF sample_key braces_not_empty g3 g4 g5 exact_arith_accurate z,
      of sample_lib sample_clock sample_clock "[]"]
  obtain m0 where
    "analyzeMeal exact_arith sample_env (GenText (Some braces)) ?parse_m
         sample_lib sample_clock sample_clock []
       = Inr \<lparr>a_text = str_or (feedback ?r_m) DEFAULT_FEEDBACK, a_meal = Some m0\<rparr>"
    and "md_calories missing_meal_data = None \<longrightarrow> ml_calories m0 = 0"
    and "md_protein missing_meal_data = None \<longrightarrow> ml_protein m0 = 0"
    by (elim exE conjE) (rule that, assumption+)
  with fb0 n have second: "\<exists>m. analyzeMeal exact_arith sample_env (GenText (Some braces)) ?parse_m
                       sample_lib sample_clock sample_clock []
                     = Inr \<lparr>a_text = DEFAULT_FEEDBACK, a_meal = Some m\<rparr> \<and>
                     ml_calories m = 0 \<and> ml_protein m = 0"
    by auto
  from sample_key braces_not_empty exact_arith_accurate rp rf rc first n(1,2) second
  show ?thesis by (intro conjI)
qed

lemma resolve_timestamp_slash_date: "resolve_timestamp lib today now (Some slash_date) = NaN"
proof -
  have s: "split_on 0x002D slash_date = [slash_date]"
    by (simp add: slash_date_def)
  have "str_or (Some slash_date) (todayStr today) = slash_date"
    by (simp add: str_or_def slash_date_def)
  then show ?thesis
    by (simp add: resolve_timestamp_def s element_def to_number_def minus_one_def newDate_def
        setHours_def Let_def split: jsnum.splits)
qed

text \<open>
  C4 at the failing input. The model answers with the target date 2024/01/15. Splitting at
  the hyphen leaves one part, so month and day are undefined, the date built from them is
  invalid, nothing throws and the fallback of the \<^verbatim>\<open>catch\<close> branch is not reached: the
  proposed meal carries the time stamp NaN, whatever the current date and time are.
\<close>

theorem analyzeMeal_unparseable_date:
  "analyzeMeal exact_arith sample_env (GenText (Some braces))
     (\<lambda>s. ParsedObj \<lparr>is_food_related = Some True, feedback = None, confirmation_message = None,
        target_date = Some slash_date, meal_data = Some sample_meal_data\<rparr>)
     lib today now uuid
   = Inr \<lparr>a_text = DEFAULT_FEEDBACK,
          a_meal = Some \<lparr>ml_id = uuid, ml_timestamp = NaN, ml_name = DEFAULT_MEAL_NAME,
                         ml_calories = 500, ml_protein = 20, ml_fat = 15, ml_carbs = 60,
                         ml_imageUrl = None, ml_imagePath = None,
                         ml_confirmationMessage = Some DEFAULT_CONFIRMATION\<rparr>\<rparr>"
proof -
  have c: "Math_round 500 = 500" using Math_round_of_int [of 500] by simp
  have p: "Math_round 200 = 200" using Math_round_of_int [of 200] by simp
  have f: "Math_round 150 = 150" using Math_round_of_int [of 150] by simp
  have k: "Math_round 600 = 600" using Math_round_of_int [of 600] by simp
  show ?thesis
    by (simp add: analyzeMeal_def sample_key braces_not_empty decide_def mealLog_of_def
        str_or_def num_or_zero_def sample_meal_data_def exact_arith_def c p f k
        resolve_timestamp_slash_date)
qed

text \<open>
  C5, as stated, fails: a response that parses but lacks every required field is not
  reported as a parse failure. It is answered with the default feedback text.
\<close>

theorem analyzeMeal_missing_field_counterexample:
  "analyzeMeal exact_arith sample_env (GenText (Some braces)) (\<lambda>s. ParsedObj empty_response)
     sample_lib sample_clock sample_clock []
   = Inr \<lparr>a_text = DEFAULT_FEEDBACK, a_meal = None\<rparr> \<and>
   DEFAULT_FEEDBACK \<noteq> PARSE_FAILURE_TEXT"
  using meal_texts_distinct
  by (simp add: analyzeMeal_def sample_key braces_not_empty decide_def empty_response_def
      str_or_def)

text \<open>
  C5, amended. With a client at hand, analyzeMeal keeps two failure paths apart. A response
  text that JSON.parse rejects yields the fixed parse-failure text and no meal. A thrown
  failure of the generation capability, an empty or missing response text, and a response
  that parses to null yield the softer transport-failure text and no meal. The two texts
  differ. A response that parses to an object is never reported as a parse failure, even with
  required fields missing: the text is its feedback, or the default feedback text, and there
  is no meal unless it is food related and carries meal data.
\<close>

theorem analyzeMeal_failure_paths:
  assumes key: "getAiClient env = Inr ai"
  shows "analyzeMeal ar env GenThrows parse lib today now uuid
           = Inr \<lparr>a_text = TRANSPORT_FAILURE_TEXT, a_meal = None\<rparr> \<and>
         analyzeMeal ar env (GenText None) parse lib today now uuid
           = Inr \<lparr>a_text = TRANSPORT_FAILURE_TEXT, a_meal = None\<rparr> \<and>
         analyzeMeal ar env (GenText (Some [])) parse lib today now uuid
           = Inr \<lparr>a_text = TRANSPORT_FAILURE_TEXT, a_meal = None\<rparr> \<and>
         (rt \<noteq> [] \<and> parse (cleanJsonString rt) = ParseThrows \<longrightarrow>
            analyzeMeal ar env (GenText (Some rt)) parse lib today now uuid
              = Inr \<lparr>a_text = PARSE_FAILURE_TEXT, a_meal = None\<rparr>) \<and>
         (rt \<noteq> [] \<and> parse (cleanJsonString rt) = ParsedNull \<longrightarrow>
            analyzeMeal ar env (GenText (Some rt)) parse lib today now uuid
              = Inr \<lparr>a_text = TRANSPORT_FAILURE_TEXT, a_meal = None\<rparr>) \<and>
         (rt \<noteq> [] \<and> parse (cleanJsonString rt) = ParsedObj r \<longrightarrow>
            (\<exists>m. analyzeMeal ar env (GenText (Some rt)) parse lib today now uuid
                    = Inr \<lparr>a_text = str_or (feedback r) DEFAULT_FEEDBACK, a_meal = m\<rparr> \<and>
                  (is_food_related r \<noteq> Some True \<or> meal_data r = None \<longrightarrow> m = None))) \<and>
         PARSE_FAILURE_TEXT \<noteq> TRANSPORT_FAILURE_TEXT"
proof (intro conjI impI)
  show "analyzeMeal ar env GenThrows parse lib today now uuid
           = Inr \<lparr>a_text = TRANSPORT_FAILURE_TEXT, a_meal = None\<rparr>"
    using key by (simp add: analyzeMeal_def transport_failure_def)
  show "analyzeMeal ar env (GenText None) parse lib today now uuid
           = Inr \<lparr>a_text = TRANSPORT_FAILURE_TEXT, a_meal = None\<rparr>"
    using key by (simp add: analyzeMeal_def transport_failure_def)
  show "analyzeMeal ar env (GenText (Some [])) parse lib today now uuid
           = Inr \<lparr>a_text = TRANSPORT_FAILURE_TEXT, a_meal = None\<rparr>"
    using key by (simp add: analyzeMeal_def transport_failure_def)
  show "PARSE_FAILURE_TEXT \<noteq> TRANSPORT_FAILURE_TEXT"
    using meal_texts_distinct by blast
next
  assume "rt \<noteq> [] \<and> parse (cleanJsonString rt) = ParseThrows"
  then show "analyzeMeal ar env (GenText (Some rt)) parse lib today now uuid
              = Inr \<lparr>a_text = PARSE_FAILURE_TEXT, a_meal = None\<rparr>"
    using key by (simp add: analyzeMeal_def)
next
  assume "rt \<noteq> [] \<and> parse (cleanJsonString rt) = ParsedNull"
  then show "analyzeMeal ar env (GenText (Some rt)) parse lib today now uuid
              = Inr \<lparr>a_text = TRANSPORT_FAILURE_TEXT, a_meal = None\<rparr>"
    using key by (simp add: analyzeMeal_def transport_failure_def)
next
  assume a: "rt \<noteq> [] \<and> parse (cleanJsonString rt) = ParsedObj r"
  then have res: "analyzeMeal ar env (GenText (Some rt)) parse lib today now uuid
                    = Inr (decide ar lib today now uuid r)"
    using key by (simp add: analyzeMeal_parsed [where ai = ai])
  have t: "a_text (decide ar lib today now uuid r) = str_or (feedback r) DEFAULT_FEEDBACK"
    by (simp add: decide_def Let_def split: option.splits)
  have m: "is_food_related r \<noteq> Some True \<or> meal_data r = None
             \<longrightarrow> a_meal (decide ar lib today now uuid r) = None"
    by (auto simp: decide_def Let_def)
  have "decide ar lib today now uuid r
          = \<lparr>a_text = str_or (feedback r) DEFAULT_FEEDBACK,
             a_meal = a_meal (decide ar lib today now uuid r)\<rparr>"
    using t by (cases "decide ar lib today now uuid r") simp
  with res m
  show "\<exists>m. analyzeMeal ar env (GenText (Some rt)) parse lib today now uuid
               = Inr \<lparr>a_text = str_or (feedback r) DEFAULT_FEEDBACK, a_meal = m\<rparr> \<and>
             (is_food_related r \<noteq> Some True \<or> meal_data r = None \<longrightarrow> m = None)"
    by (intro exI [of _ "a_meal (decide ar lib today now uuid r)"]) simp
qed

theorem analyzeMeal_failure_paths_witness:
  "getAiClient sample_env = Inr [0x006B, 0x0065, 0x0079] \<and> braces \<noteq> [] \<and>
   analyzeMeal exact_arith sample_env GenThrows (\<lambda>s. ParseThrows) sample_lib sample_clock sample_clock []
     = Inr \<lparr>a_text = TRANSPORT_FAILURE_TEXT, a_meal = None\<rparr> \<and>
   analyzeMeal exact_arith sample_env (GenText (Some braces)) (\<lambda>s. ParseThrows)
       sample_lib sample_clock sample_clock []
     = Inr \<lparr>a_text = PARSE_FAILURE_TEXT, a_meal = None\<rparr> \<and>
   analyzeMeal exact_arith sample_env (GenText (Some braces)) (\<lambda>s. ParsedNull)
       sample_lib sample_clock sample_clock []
     = Inr \<lparr>a_text = TRANSPORT_FAILURE_TEXT, a_meal = None\<rparr> \<and>
   analyzeMeal exact_arith sample_env (GenText (Some braces)) (\<lambda>s. ParsedObj empty_response)
       sample_lib sample_clock sample_clock []
     = Inr \<lparr>a_text = DEFAULT_FEEDBACK, a_meal = None\<rparr>"
proof -
  have fb: "str_or (feedback empty_response) DEFAULT_FEEDBACK = DEFAULT_FEEDBACK"
    by (simp add: empty_response_def str_or_def)
  have nf: "is_food_related empty_response \<noteq> Some True"
    by (simp add: empty_response_def)
  from analyzeMeal_failure_paths [OF sample_key,
      of exact_arith "\<lambda>s. ParseThrows" sample_lib sample_clock sample_clock "[]" braces]
  have a: "analyzeMeal exact_arith sample_env GenThrows (\<lambda>s. ParseThrows) sample_lib sample_clock
             sample_clock [] = Inr \<lparr>a_text = TRANSPORT_FAILURE_TEXT, a_meal = None\<rparr>"
    and b: "analyzeMeal exact_arith sample_env (GenText (Some braces)) (\<lambda>s. ParseThrows)
             sample_lib sample_clock sample_clock []
             = Inr \<lparr>a_text = PARSE_FAILURE_TEXT, a_meal = None\<rparr>"
    using braces_not_empty by simp_all
  from analyzeMeal_failure_paths [OF sample_key,
      of exact_arith "\<lambda>s. ParsedNull" sample_lib sample_clock sample_clock "[]" braces]
  have c: "analyzeMeal exact_arith sample_env (GenText (Some braces)) (\<lambda>s. ParsedNull)
             sample_lib sample_clock sample_clock []
             = Inr \<lparr>a_text = TRANSPORT_FAILURE_TEXT, a_meal = None\<rparr>"
    using braces_not_empty by simp
  from analyzeMeal_failure_paths [OF sample_key,
      of exact_arith "\<lambda>s. ParsedObj empty_response" sample_lib sample_clock sample_clock
         "[]" braces empty_response]
  have d: "analyzeMeal exact_arith sample_env (GenText (Some braces)) (\<lambda>s. ParsedObj empty_response)
             sample_lib sample_clock sample_clock []
             = Inr \<lparr>a_text = DEFAULT_FEEDBACK, a_meal = None\<rparr>"
    using braces_not_empty fb nf by auto
  from sample_key braces_not_empty a b c d show ?thesis by blast
qed

text \<open>
  C10. When the response parses to an object whose is_food_related is true and whose meal_data
  is absent, analyzeMeal returns the feedback text (the default one if the response has
  none) with no meal, exactly as it does for the same response marked as not food related;
  no parse failure is reported.
\<close>

theorem analyzeMeal_food_without_meal_data:
  assumes "getAiClient env = Inr ai" and "rt \<noteq> []"
    and "parse (cleanJsonString rt) = ParsedObj r"
    and "is_food_related r = Some True" and "meal_data r = None"
  shows "analyzeMeal ar env (GenText (Some rt)) parse lib today now uuid
           = Inr \<lparr>a_text = str_or (feedback r) DEFAULT_FEEDBACK, a_meal = None\<rparr> \<and>
         decide ar lib today now uuid r
           = decide ar lib today now uuid (r\<lparr>is_food_related := Some False\<rparr>)"
  using assms by (simp add: analyzeMeal_parsed [where ai = ai] decide_def)

theorem analyzeMeal_food_without_meal_data_witness:
  "getAiClient sample_env = Inr [0x006B, 0x0065, 0x0079] \<and> braces \<noteq> [] \<and>
   is_food_related (empty_response\<lparr>is_food_related := Some True\<rparr>) = Some True \<and>
   meal_data (empty_response\<lparr>is_food_related := Some True\<rparr>) = None \<and>
   analyzeMeal exact_arith sample_env (GenText (Some braces))
       (\<lambda>s. ParsedObj (empty_response\<lparr>is_food_related := Some True\<rparr>))
       sample_lib sample_clock sample_clock []
     = Inr \<lparr>a_text = DEFAULT_FEEDBACK, a_meal = None\<rparr>"
proof -
  let ?r = "empty_response\<lparr>is_food_related := Some True\<rparr>"
  let ?parse = "\<lambda>s :: jsstring. ParsedObj ?r"
  have h3: "?parse (cleanJsonString braces) = ParsedObj ?r" by simp
  have h4: "is_food_related ?r = Some True" by simp
  have h5: "meal_data ?r = None" by (simp add: empty_response_def)
  have fb: "str_or (feedback ?r) DEFAULT_FEEDBACK = DEFAULT_FEEDBACK"
    by (simp add: empty_response_def str_or_def)
  from analyzeMeal_food_without_meal_data [OF sample_key braces_not_empty h3 h4 h5,
      of exact_arith sample_lib sample_clock sample_clock "[]"] fb
  have "analyzeMeal exact_arith sample_env (GenText (Some braces)) ?parse
          sample_lib sample_clock sample_clock []
        = Inr \<lparr>a_text = DEFAULT_FEEDBACK, a_meal = None\<rparr>"
    by simp
  with sample_key braces_not_empty h4 h5 show ?thesis by blast
qed

section \<open>Properties of createNewCoach\<close>

lemma fallback_coach_avatar: "avatarUrl fallback_coach = []"
  by (simp add: fallback_coach_def)

lemma fallback_coach_personality: "personality fallback_coach \<noteq> None"
  by (simp add: fallback_coach_def DEFAULT_COACH_def)

text \<open>
  C2, as stated, fails in two places. With no API key the call is rejected with the error of
  getAiClient, which is raised before the \<^verbatim>\<open>try\<close> block. And a response that has a name
  but lacks the other required fields is not replaced by the default persona: it is
  returned with those fields undefined.
\<close>

theorem createNewCoach_counterexample:
  "createNewCoach no_key_env (\<lambda>t. GenThrows) (\<lambda>s. ParseThrows) (\<lambda>p. ImageThrows) None
     = Inl ApiKeyRequired \<and>
   createNewCoach sample_env (\<lambda>t. GenText (Some braces)) (\<lambda>s. ParsedObj name_only_persona)
       (\<lambda>p. ImageThrows) None
     = Inr \<lparr>name = Some [0x0041], personality = None, background = None, tone = None,
            greeting = None, avatarUrl = []\<rparr> \<and>
   \<lparr>name = Some [0x0041], personality = None, background = None, tone = None,
     greeting = None, avatarUrl = []\<rparr> \<noteq> fallback_coach"
proof -
  have a: "createNewCoach no_key_env (\<lambda>t. GenThrows) (\<lambda>s. ParseThrows) (\<lambda>p. ImageThrows) None
             = Inl ApiKeyRequired"
    by (simp add: createNewCoach_def no_key)
  have b: "createNewCoach sample_env (\<lambda>t. GenText (Some braces))
             (\<lambda>s. ParsedObj name_only_persona) (\<lambda>p. ImageThrows) None
           = Inr \<lparr>name = Some [0x0041], personality = None, background = None, tone = None,
                  greeting = None, avatarUrl = []\<rparr>"
    by (simp add: createNewCoach_def sample_key name_only_persona_def truthy_str_def
        generateImage_def str_or_def)
  have c: "\<lparr>name = Some [0x0041], personality = None, background = None, tone = None,
             greeting = None, avatarUrl = []\<rparr> \<noteq> fallback_coach"
  proof
    assume "\<lparr>name = Some [0x0041], personality = None, background = None, tone = None,
              greeting = None, avatarUrl = []\<rparr> = fallback_coach"
    then have "personality fallback_coach = None"
      by (metis CoachProfile.select_convs(2))
    with fallback_coach_personality show False by simp
  qed
  from a b c show ?thesis by blast
qed

text \<open>
  C2, amended. When no API key is configured, createNewCoach is rejected with the error of
  getAiClient. When one is configured, then for every style hint and every behaviour of the
  generation capability it returns a coach profile. It returns the fixed default persona
  with an empty avatar when the persona request throws, when the response text is not JSON,
  and when the parsed value is null or has no non-empty name. A parsed response with a
  name is returned with the fields it has, missing ones undefined, and with an empty avatar
  when the image request throws.
\<close>

theorem createNewCoach_total:
  "(\<forall>e. getAiClient env = Inl e \<longrightarrow> createNewCoach env gen parse img requestedType = Inl e) \<and>
   (\<forall>ai. getAiClient env = Inr ai \<longrightarrow>
      (\<exists>c. createNewCoach env gen parse img requestedType = Inr c) \<and>
      (gen (typeInstruction requestedType) = GenThrows \<longrightarrow>
         createNewCoach env gen parse img requestedType = Inr fallback_coach) \<and>
      (\<forall>t. gen (typeInstruction requestedType) = GenText t \<and>
           (parse (cleanJsonString (str_or t braces)) = ParseThrows \<or>
            parse (cleanJsonString (str_or t braces)) = ParsedNull) \<longrightarrow>
         createNewCoach env gen parse img requestedType = Inr fallback_coach) \<and>
      (\<forall>t p. gen (typeInstruction requestedType) = GenText t \<and>
           parse (cleanJsonString (str_or t braces)) = ParsedObj p \<and> \<not> truthy_str (p_name p) \<longrightarrow>
         createNewCoach env gen parse img requestedType = Inr fallback_coach) \<and>
      (\<forall>t p. gen (typeInstruction requestedType) = GenText t \<and>
           parse (cleanJsonString (str_or t braces)) = ParsedObj p \<and> truthy_str (p_name p) \<longrightarrow>
         (\<exists>url. createNewCoach env gen parse img requestedType
                  = Inr \<lparr>name = p_name p, personality = p_personality p,
                         background = p_background p, tone = p_tone p,
                         greeting = p_greeting p, avatarUrl = url\<rparr> \<and>
                (img (p_imagePrompt p) = ImageThrows \<longrightarrow> url = [])))) \<and>
   avatarUrl fallback_coach = []"
proof (intro conjI allI impI)
  fix e assume "getAiClient env = Inl e"
  then show "createNewCoach env gen parse img requestedType = Inl e"
    by (simp add: createNewCoach_def)
next
  show "avatarUrl fallback_coach = []" by (rule fallback_coach_avatar)
next
  fix ai assume "getAiClient env = Inr ai"
  then show "\<exists>c. createNewCoach env gen parse img requestedType = Inr c"
    by (simp add: createNewCoach_def)
next
  fix ai assume "getAiClient env = Inr ai" and "gen (typeInstruction requestedType) = GenThrows"
  then show "createNewCoach env gen parse img requestedType = Inr fallback_coach"
    by (simp add: createNewCoach_def)
next
  fix ai t
  assume "getAiClient env = Inr ai"
    and "gen (typeInstruction requestedType) = GenText t \<and>
         (parse (cleanJsonString (str_or t braces)) = ParseThrows \<or>
          parse (cleanJsonString (str_or t braces)) = ParsedNull)"
  then show "createNewCoach env gen parse img requestedType = Inr fallback_coach"
    by (auto simp: createNewCoach_def)
next
  fix ai t p
  assume "getAiClient env = Inr ai"
    and "gen (typeInstruction requestedType) = GenText t \<and>
         parse (cleanJsonString (str_or t braces)) = ParsedObj p \<and> \<not> truthy_str (p_name p)"
  then show "createNewCoach env gen parse img requestedType = Inr fallback_coach"
    by (simp add: createNewCoach_def)
next
  fix ai t p
  assume key: "getAiClient env = Inr ai"
    and a: "gen (typeInstruction requestedType) = GenText t \<and>
            parse (cleanJsonString (str_or t braces)) = ParsedObj p \<and> truthy_str (p_name p)"
  let ?url = "case generateImage env img (p_imagePrompt p) of
                Inl e \<Rightarrow> [] | Inr generatedUrl \<Rightarrow> str_or generatedUrl []"
  have res: "createNewCoach env gen parse img requestedType
               = Inr \<lparr>name = p_name p, personality = p_personality p,
                      background = p_background p, tone = p_tone p,
                      greeting = p_greeting p, avatarUrl = ?url\<rparr>"
    using key a by (simp add: createNewCoach_def)
  have thr: "img (p_imagePrompt p) = ImageThrows \<longrightarrow> ?url = []"
    using key by (simp add: generateImage_def str_or_def)
  from res thr
  show "\<exists>url. createNewCoach env gen parse img requestedType
                 = Inr \<lparr>name = p_name p, personality = p_personality p,
                        background = p_background p, tone = p_tone p,
                        greeting = p_greeting p, avatarUrl = url\<rparr> \<and>
               (img (p_imagePrompt p) = ImageThrows \<longrightarrow> url = [])"
    by (intro exI [of _ ?url] conjI)
qed

theorem createNewCoach_total_witness:
  "getAiClient sample_env = Inr [0x006B, 0x0065, 0x0079] \<and>
   createNewCoach sample_env (\<lambda>t. GenThrows) (\<lambda>s. ParseThrows) (\<lambda>p. ImageThrows) None
     = Inr fallback_coach \<and>
   createNewCoach sample_env (\<lambda>t. GenText (Some braces)) (\<lambda>s. ParseThrows) (\<lambda>p. ImageThrows) None
     = Inr fallback_coach \<and>
   getAiClient no_key_env = Inl ApiKeyRequired \<and>
   createNewCoach no_key_env (\<lambda>t. GenThrows) (\<lambda>s. ParseThrows) (\<lambda>p. ImageThrows) None
     = Inl ApiKeyRequired"
proof -
  from createNewCoach_total [of sample_env "\<lambda>t. GenThrows" "\<lambda>s. ParseThrows"
      "\<lambda>p. ImageThrows" None] sample_key
  have a: "createNewCoach sample_env (\<lambda>t. GenThrows) (\<lambda>s. ParseThrows) (\<lambda>p. ImageThrows) None
             = Inr fallback_coach"
    by simp
  from createNewCoach_total [of sample_env "\<lambda>t. GenText (Some braces)" "\<lambda>s. ParseThrows"
      "\<lambda>p. ImageThrows" None] sample_key
  have b: "createNewCoach sample_env (\<lambda>t. GenText (Some braces)) (\<lambda>s. ParseThrows)
             (\<lambda>p. ImageThrows) None = Inr fallback_coach"
    by simp
  from createNewCoach_total [of no_key_env "\<lambda>t. GenThrows" "\<lambda>s. ParseThrows"
      "\<lambda>p. ImageThrows" None] no_key
  have c: "createNewCoach no_key_env (\<lambda>t. GenThrows) (\<lambda>s. ParseThrows) (\<lambda>p. ImageThrows) None
             = Inl ApiKeyRequired"
    by simp
  from sample_key a b no_key c show ?thesis by blast
qed

section \<open>Properties of confirmMeal\<close>

lemma addMeal_continued_appends:
  "\<exists>stored. addMeal_continued answer meal pg = pg\<lparr>meals := meals pg @ [stored]\<rparr> \<and>
            as_proposed stored = as_proposed meal"
proof (cases answer)
  case DbThrows
  then show ?thesis by (intro exI [of _ meal]) (simp add: addMeal_continued_def)
next
  case (DbReturns row)
  show ?thesis
  proof (cases row)
    case None
    with DbReturns show ?thesis by (intro exI [of _ meal]) (simp add: addMeal_continued_def)
  next
    case (Some addedMeal)
    with DbReturns show ?thesis
      by (intro exI [of _ "meal\<lparr>ml_id := row_id addedMeal,
                                  ml_imagePath := row_image_path addedMeal\<rparr>"])
         (simp add: addMeal_continued_def as_proposed_def)
  qed
qed

lemma confirmMeal_messages:
  "messages (confirmMeal session rendered messageId meal pg)
     = map (\<lambda>m. if m_id m = messageId
                then m\<lparr>isLogConfirmation := Some False,
                        m_text := m_text m @ CONFIRM_SEP
                                    @ str_or (ml_confirmationMessage meal) CONFIRM_DEFAULT\<rparr>
                else m)
         rendered"
  by (simp add: confirmMeal_def updateMessages_def Let_def)

lemma confirmMeal_meals: "meals (confirmMeal session rendered messageId meal pg) = meals pg"
  by (simp add: confirmMeal_def updateMessages_def addMeal_def Let_def)

lemma confirmMeal_pending:
  "truthy_str session \<Longrightarrow>
     pending (confirmMeal session rendered messageId meal pg) = pending pg @ [AddMealToDb meal]"
  by (simp add: confirmMeal_def updateMessages_def addMeal_def Let_def)

lemma handleSend_meals: "meals (handleSend rendered i pg) = meals pg"
  by (simp add: handleSend_def updateMessages_def)

lemma awaited_append: "awaited (cs @ ds) = awaited cs @ awaited ds"
  by (induction cs rule: awaited.induct) simp_all

lemma handleSend_awaited: "awaited (pending (handleSend rendered i pg)) = awaited (pending pg)"
  by (simp add: handleSend_def updateMessages_def awaited_append)

lemma awaited_remove:
  assumes "k < length cs"
  shows "mset (awaited cs) = mset (awaited (take k cs @ drop (Suc k) cs)) + mset (awaited [cs ! k])"
proof -
  from assms have "cs = take k cs @ [cs ! k] @ drop (Suc k) cs"
    by (simp add: id_take_nth_drop [symmetric])
  then have "awaited cs = awaited (take k cs) @ awaited [cs ! k] @ awaited (drop (Suc k) cs)"
    by (metis awaited_append)
  then show ?thesis by (simp add: awaited_append)
qed

lemma confirmed_append: "confirmed (evs @ evs') = confirmed evs @ confirmed evs'"
  by (induction evs rule: confirmed.induct) simp_all

text \<open>
  One event: the meal list grows at its end, and every meal is accounted for, being in the
  list or awaited.
\<close>

lemma step_meals:
  assumes "truthy_str session"
  shows "\<exists>added. meals (step session pg ev) = meals pg @ added \<and>
           mset (map as_proposed added)
             + mset (map as_proposed (awaited (pending (step session pg ev))))
           = mset (map as_proposed (awaited (pending pg)))
             + mset (map as_proposed (confirmed [ev]))"
proof (cases ev)
  case (Send i)
  then have "meals (step session pg ev) = meals pg @ []"
    and "awaited (pending (step session pg ev)) = awaited (pending pg)"
    by (simp_all add: handleSend_meals handleSend_awaited)
  with Send show ?thesis by (intro exI [of _ "[]"]) simp
next
  case (Confirm messageId meal)
  then have "meals (step session pg ev) = meals pg @ []"
    and "awaited (pending (step session pg ev)) = awaited (pending pg) @ [meal]"
    using assms by (simp_all add: confirmMeal_meals confirmMeal_pending awaited_append)
  with Confirm show ?thesis by (intro exI [of _ "[]"]) simp
next
  case (Settle k answer)
  show ?thesis
  proof (cases "k < length (pending pg)")
    case False
    with Settle show ?thesis by (intro exI [of _ "[]"]) simp
  next
    case True
    define rest where "rest = take k (pending pg) @ drop (Suc k) (pending pg)"
    have s: "step session pg ev = continue (pending pg ! k) answer (pg\<lparr>pending := rest\<rparr>)"
      using Settle True by (simp add: rest_def)
    have r: "mset (awaited (pending pg)) = mset (awaited rest) + mset (awaited [pending pg ! k])"
      unfolding rest_def using True by (rule awaited_remove)
    show ?thesis
    proof (cases "pending pg ! k")
      case (AddMealToDb meal)
      obtain stored where
        st: "addMeal_continued answer meal (pg\<lparr>pending := rest\<rparr>)
               = (pg\<lparr>pending := rest\<rparr>)\<lparr>meals := meals (pg\<lparr>pending := rest\<rparr>) @ [stored]\<rparr>"
        and p: "as_proposed stored = as_proposed meal"
        using addMeal_continued_appends by blast
      from s AddMealToDb st have "meals (step session pg ev) = meals pg @ [stored]"
        and "pending (step session pg ev) = rest"
        by simp_all
      moreover from r AddMealToDb
      have "mset (map as_proposed (awaited (pending pg)))
              = mset (map as_proposed (awaited rest)) + {#as_proposed meal#}"
        by simp
      ultimately show ?thesis
        using Settle p by (intro exI [of _ "[stored]"]) simp
    next
      case (Analysis i rendered)
      with s have "meals (step session pg ev) = meals pg @ []"
        and "pending (step session pg ev) = rest"
        by (simp_all add: handleSend_continued_def updateMessages_def)
      moreover from r Analysis
      have "mset (map as_proposed (awaited (pending pg))) = mset (map as_proposed (awaited rest))"
        by simp
      ultimately show ?thesis
        using Settle by (intro exI [of _ "[]"]) simp
    qed
  qed
qed

lemma run_meals:
  assumes "truthy_str session"
  shows "\<exists>added. meals (run session pg evs) = meals pg @ added \<and>
           mset (map as_proposed added)
             + mset (map as_proposed (awaited (pending (run session pg evs))))
           = mset (map as_proposed (awaited (pending pg)))
             + mset (map as_proposed (confirmed evs))"
proof (induction evs rule: rev_induct)
  case Nil
  show ?case by (intro exI [of _ "[]"]) (simp add: run_def)
next
  case (snoc ev evs)
  define pg' where "pg' = run session pg evs"
  have r: "run session pg (evs @ [ev]) = step session pg' ev"
    by (simp add: run_def pg'_def)
  from snoc.IH obtain added where
    a: "meals pg' = meals pg @ added"
    and b: "mset (map as_proposed added) + mset (map as_proposed (awaited (pending pg')))
            = mset (map as_proposed (awaited (pending pg)))
              + mset (map as_proposed (confirmed evs))"
    unfolding pg'_def by blast
  from step_meals [OF assms, of pg' ev] obtain added' where
    c: "meals (step session pg' ev) = meals pg' @ added'"
    and d: "mset (map as_proposed added')
              + mset (map as_proposed (awaited (pending (step session pg' ev))))
            = mset (map as_proposed (awaited (pending pg')))
              + mset (map as_proposed (confirmed [ev]))"
    by blast
  have "meals (run session pg (evs @ [ev])) = meals pg @ (added @ added')"
    using a c r by simp
  moreover have "mset (map as_proposed (added @ added'))
      + mset (map as_proposed (awaited (pending (run session pg (evs @ [ev])))))
    = mset (map as_proposed (awaited (pending pg)))
      + mset (map as_proposed (confirmed (evs @ [ev])))"
  proof -
    have "mset (map as_proposed (added @ added'))
            + mset (map as_proposed (awaited (pending (step session pg' ev))))
          = mset (map as_proposed added)
            + (mset (map as_proposed added')
               + mset (map as_proposed (awaited (pending (step session pg' ev)))))"
      by simp
    also have "\<dots> = mset (map as_proposed added)
            + (mset (map as_proposed (awaited (pending pg')))
               + mset (map as_proposed (confirmed [ev])))"
      by (simp only: d)
    also have "\<dots> = (mset (map as_proposed added) + mset (map as_proposed (awaited (pending pg'))))
            + mset (map as_proposed (confirmed [ev]))"
      by simp
    also have "\<dots> = (mset (map as_proposed (awaited (pending pg)))
              + mset (map as_proposed (confirmed evs)))
            + mset (map as_proposed (confirmed [ev]))"
      by (simp only: b)
    also have "\<dots> = mset (map as_proposed (awaited (pending pg)))
              + mset (map as_proposed (confirmed (evs @ [ev])))"
      by (simp add: confirmed_append)
    finally show ?thesis by (simp only: r)
  qed
  ultimately show ?case by blast
qed

text \<open>
  What the page does with a send, for comparison: the reply replaces the message of the
  user, since both are appended to the messages of the same render.
\<close>

lemma send_settled:
  assumes "\<not> ((trim (inputText i) = [] \<and> \<not> has_selectedImage i) \<or> isLoading i)"
  shows "messages (run session pg [Send i, Settle (length (pending pg)) answer])
           = messages pg @ [modelMessage i]"
  using assms
  by (simp add: run_def handleSend_def updateMessages_def handleSend_continued_def nth_append)

text \<open>
  A confirmation made while a send is awaited changes the messages, and the reply of the
  send then sets them from the earlier render, without the confirmation.
\<close>

lemma confirmation_overwritten:
  assumes "\<not> ((trim (inputText i) = [] \<and> \<not> has_selectedImage i) \<or> isLoading i)"
  shows "messages (run session pg [Send i, Confirm messageId meal,
                                   Settle (length (pending pg)) answer])
           = messages pg @ [modelMessage i]"
  using assms
  by (auto simp: run_def handleSend_def updateMessages_def handleSend_continued_def
      confirmMeal_def addMeal_def Let_def nth_append)

text \<open>
  C7. With a signed-in user, confirming a proposal changes, in the list of messages,
  nothing but the messages with the given id: their confirmation flag is cleared and the
  confirmation text is appended to their text; no message is removed or reordered, and
  every other message is unchanged. The confirmation calls the data base for the meal
  and leaves the meal list as it is until that call settles; then, whatever the answer,
  the meal is appended to the meal list (as proposed, but for the identifier and image
  path that the data base may assign) and the messages are unchanged. Over any run of
  sends, confirmations and settled calls the meal list only grows at its end, and the
  meals added, together with those still awaited, are exactly the meals awaited at the
  start and the meals confirmed in the run: a proposal that is never confirmed is never
  added.
\<close>

theorem confirmMeal_effect:
  assumes "truthy_str session"
  shows "length (messages (step session pg (Confirm messageId meal))) = length (messages pg) \<and>
         (\<forall>j < length (messages pg).
            messages (step session pg (Confirm messageId meal)) ! j
              = (if m_id (messages pg ! j) = messageId
                 then (messages pg ! j)
                        \<lparr>isLogConfirmation := Some False,
                         m_text := m_text (messages pg ! j) @ CONFIRM_SEP
                                     @ str_or (ml_confirmationMessage meal) CONFIRM_DEFAULT\<rparr>
                 else messages pg ! j)) \<and>
         meals (step session pg (Confirm messageId meal)) = meals pg \<and>
         pending (step session pg (Confirm messageId meal)) = pending pg @ [AddMealToDb meal] \<and>
         (k < length (pending pg') \<and> pending pg' ! k = AddMealToDb meal \<longrightarrow>
            (\<exists>stored. meals (step session pg' (Settle k answer)) = meals pg' @ [stored] \<and>
                      as_proposed stored = as_proposed meal) \<and>
            messages (step session pg' (Settle k answer)) = messages pg') \<and>
         (\<exists>added. meals (run session pg evs) = meals pg @ added \<and>
            mset (map as_proposed added)
              + mset (map as_proposed (awaited (pending (run session pg evs))))
            = mset (map as_proposed (awaited (pending pg)))
              + mset (map as_proposed (confirmed evs)))"
proof (intro conjI impI)
  show "length (messages (step session pg (Confirm messageId meal))) = length (messages pg)"
    by (simp add: confirmMeal_messages)
  show "\<forall>j < length (messages pg).
          messages (step session pg (Confirm messageId meal)) ! j
            = (if m_id (messages pg ! j) = messageId
               then (messages pg ! j)
                      \<lparr>isLogConfirmation := Some False,
                       m_text := m_text (messages pg ! j) @ CONFIRM_SEP
                                   @ str_or (ml_confirmationMessage meal) CONFIRM_DEFAULT\<rparr>
               else messages pg ! j)"
    by (simp add: confirmMeal_messages)
  show "meals (step session pg (Confirm messageId meal)) = meals pg"
    by (simp add: confirmMeal_meals)
  show "pending (step session pg (Confirm messageId meal)) = pending pg @ [AddMealToDb meal]"
    using assms by (simp add: confirmMeal_pending)
  show "\<exists>added. meals (run session pg evs) = meals pg @ added \<and>
          mset (map as_proposed added)
            + mset (map as_proposed (awaited (pending (run session pg evs))))
          = mset (map as_proposed (awaited (pending pg)))
            + mset (map as_proposed (confirmed evs))"
    by (rule run_meals [OF assms])
next
  assume a: "k < length (pending pg') \<and> pending pg' ! k = AddMealToDb meal"
  define rest where "rest = pg'\<lparr>pending := take k (pending pg') @ drop (Suc k) (pending pg')\<rparr>"
  from a have s: "step session pg' (Settle k answer) = addMeal_continued answer meal rest"
    by (simp add: rest_def)
  obtain stored where
    st: "addMeal_continued answer meal rest = rest\<lparr>meals := meals rest @ [stored]\<rparr>"
    and p: "as_proposed stored = as_proposed meal"
    using addMeal_continued_appends by blast
  have "meals (step session pg' (Settle k answer)) = meals pg' @ [stored]"
    unfolding s st by (simp add: rest_def)
  with p show "\<exists>stored. meals (step session pg' (Settle k answer)) = meals pg' @ [stored] \<and>
                        as_proposed stored = as_proposed meal"
    by blast
  show "messages (step session pg' (Settle k answer)) = messages pg'"
    unfolding s st by (simp add: rest_def)
qed

text \<open>
  The theorem at the sample page, which shows one proposal: the confirmation marks the
  message and calls the data base, the settled call appends the meal, and a send that
  proposes the meal leaves the meal list empty.
\<close>

theorem confirmMeal_effect_witness:
  "truthy_str (Some [0x0075]) \<and>
   messages (step (Some [0x0075]) sample_page (Confirm [0x006D] sample_meal)) ! 0
     = sample_message\<lparr>isLogConfirmation := Some False,
                      m_text := DEFAULT_FEEDBACK @ CONFIRM_SEP @ DEFAULT_CONFIRMATION\<rparr> \<and>
   meals (step (Some [0x0075]) sample_page (Confirm [0x006D] sample_meal)) = [] \<and>
   pending (step (Some [0x0075]) sample_page (Confirm [0x006D] sample_meal))
     = [AddMealToDb sample_meal] \<and>
   map as_proposed
     (meals (step (Some [0x0075])
               (step (Some [0x0075]) sample_page (Confirm [0x006D] sample_meal))
               (Settle 0 (DbReturns None))))
     = [as_proposed sample_meal] \<and>
   meals (run (Some [0x0075]) sample_page [Send sample_send, Settle 0 DbThrows]) = []"
proof -
  let ?s = "Some [0x0075] :: jsstring option"
  let ?c = "Confirm [0x006D] sample_meal"
  let ?pg1 = "step ?s sample_page ?c"
  let ?evs = "[Send sample_send, Settle 0 DbThrows]"
  have s: "truthy_str ?s" by (simp add: truthy_str_def)
  note t = confirmMeal_effect [OF s, where pg = sample_page and messageId = "[0x006D]"
      and meal = sample_meal and k = 0 and pg' = ?pg1 and answer = "DbReturns None"
      and evs = ?evs]
  have c: "str_or (ml_confirmationMessage sample_meal) CONFIRM_DEFAULT = DEFAULT_CONFIRMATION"
    by (simp add: sample_meal_def str_or_def DEFAULT_CONFIRMATION_def)
  have i: "m_id sample_message = [0x006D]" and x: "m_text sample_message = DEFAULT_FEEDBACK"
    by (simp_all add: sample_message_def)
  have m: "messages sample_page = [sample_message]" and e: "meals sample_page = []"
    and n: "pending sample_page = []"
    by (simp_all add: sample_page_def)
  from t have "\<forall>j < length (messages sample_page).
     messages ?pg1 ! j
       = (if m_id (messages sample_page ! j) = [0x006D]
          then (messages sample_page ! j)
                 \<lparr>isLogConfirmation := Some False,
                  m_text := m_text (messages sample_page ! j) @ CONFIRM_SEP
                              @ str_or (ml_confirmationMessage sample_meal) CONFIRM_DEFAULT\<rparr>
          else messages sample_page ! j)"
    by (elim conjE)
  then have a: "messages ?pg1 ! 0
     = sample_message\<lparr>isLogConfirmation := Some False,
                      m_text := DEFAULT_FEEDBACK @ CONFIRM_SEP @ DEFAULT_CONFIRMATION\<rparr>"
    by (simp add: m c i x)
  from t have "meals ?pg1 = meals sample_page" by (elim conjE)
  then have b: "meals ?pg1 = []" by (simp only: e)
  from t have "pending ?pg1 = pending sample_page @ [AddMealToDb sample_meal]" by (elim conjE)
  then have d: "pending ?pg1 = [AddMealToDb sample_meal]" by (simp only: n append_Nil)
  then have h: "0 < length (pending ?pg1) \<and> pending ?pg1 ! 0 = AddMealToDb sample_meal"
    by simp
  from t h have "\<exists>stored. meals (step ?s ?pg1 (Settle 0 (DbReturns None))) = meals ?pg1 @ [stored] \<and>
                          as_proposed stored = as_proposed sample_meal"
    by (elim conjE) blast
  then have f: "map as_proposed (meals (step ?s ?pg1 (Settle 0 (DbReturns None))))
                  = [as_proposed sample_meal]"
    using b by auto
  from t have "\<exists>added. meals (run ?s sample_page ?evs) = meals sample_page @ added \<and>
       mset (map as_proposed added)
         + mset (map as_proposed (awaited (pending (run ?s sample_page ?evs))))
       = mset (map as_proposed (awaited (pending sample_page)))
         + mset (map as_proposed (confirmed ?evs))"
    by (elim conjE)
  then have g: "meals (run ?s sample_page ?evs) = []"
    by (auto simp: e n)
  from s a b d f g show ?thesis by (intro conjI)
qed

section \<open>Properties of the image normalization\<close>

subsection \<open>The doubles are accurate\<close>

lemma round_even_near: "\<bar>of_int (round_even x) - x\<bar> \<le> 1 / 2"
proof -
  have "of_int \<lfloor>x\<rfloor> \<le> x" and "x < of_int \<lfloor>x\<rfloor> + 1" by linarith+
  then show ?thesis by (simp add: round_even_def Let_def)
qed

lemma round_even_eq:
  assumes "of_int z - 1 / 2 < x" and "x < of_int z + 1 / 2"
  shows "round_even x = z"
proof (cases "of_int z \<le> x")
  case True
  with assms have "\<lfloor>x\<rfloor> = z" by (simp add: floor_eq_iff)
  with assms show ?thesis by (simp add: round_even_def Let_def)
next
  case False
  with assms have f: "\<lfloor>x\<rfloor> = z - 1" by (simp add: floor_eq_iff)
  from assms have "\<not> x - of_int (z - 1) < 1 / 2" and "1 / 2 < x - of_int (z - 1)" by simp_all
  with f show ?thesis by (simp add: round_even_def Let_def)
qed

lemma round_below_accurate:
  "0 < x \<Longrightarrow> x < 2 ^ 53 \<Longrightarrow> 2 ^ 52 \<le> x * 2 ^ n \<Longrightarrow> \<bar>round_below n x - x\<bar> \<le> x / 2 ^ 53"
proof (induction n arbitrary: x)
  case 0
  then have "1 / 2 \<le> x / 2 ^ 53" by simp
  with round_even_near [of x] show ?case by simp
next
  case (Suc n)
  show ?case
  proof (cases "x < 2 ^ 52")
    case True
    from Suc.prems True have "0 < 2 * x" and "2 * x < 2 ^ 53" and "2 ^ 52 \<le> 2 * x * 2 ^ n"
      by (simp_all add: mult.commute mult.left_commute)
    then have "\<bar>round_below n (2 * x) - 2 * x\<bar> \<le> 2 * x / 2 ^ 53" by (rule Suc.IH)
    then have "\<bar>round_below n (2 * x) / 2 - x\<bar> \<le> x / 2 ^ 53" by (simp add: abs_le_iff field_simps)
    with True show ?thesis by simp
  next
    case False
    then have "1 / 2 \<le> x / 2 ^ 53" by simp
    with round_even_near [of x] False show ?thesis by simp
  qed
qed

lemma round_above_accurate:
  "2 ^ 52 \<le> x \<Longrightarrow> x < 2 ^ 53 * 2 ^ n \<Longrightarrow> \<bar>round_above n x - x\<bar> \<le> x / 2 ^ 53"
proof (induction n arbitrary: x)
  case 0
  then have "1 / 2 \<le> x / 2 ^ 53" by simp
  with round_even_near [of x] show ?case by simp
next
  case (Suc n)
  show ?case
  proof (cases "2 ^ 53 \<le> x")
    case True
    from Suc.prems True have "2 ^ 52 \<le> x / 2" and "x / 2 < 2 ^ 53 * 2 ^ n"
      by simp_all
    then have "\<bar>round_above n (x / 2) - x / 2\<bar> \<le> x / 2 / 2 ^ 53" by (rule Suc.IH)
    then have "\<bar>2 * round_above n (x / 2) - x\<bar> \<le> x / 2 ^ 53" by (simp add: abs_le_iff field_simps)
    with True show ?thesis by simp
  next
    case False
    from Suc.prems have "1 / 2 \<le> x / 2 ^ 53" by simp
    with round_even_near [of x] False show ?thesis by simp
  qed
qed

lemma double_round_abs:
  assumes "1 / 2 ^ 1022 \<le> a" and "a < 2 ^ 1023"
  shows "\<bar>(if a < 2 ^ 53 then round_below 1074 a else round_above 971 a) - a\<bar> \<le> a / 2 ^ 53"
proof (cases "a < 2 ^ 53")
  case True
  have "(0 :: rat) < 1 / 2 ^ 1022" by simp
  with assms have a0: "0 < a" by linarith
  have "(2 :: rat) ^ 52 = 1 / 2 ^ 1022 * 2 ^ 1074" by simp
  also have "\<dots> \<le> a * 2 ^ 1074" using assms(1) by (intro mult_right_mono) simp_all
  finally have "2 ^ 52 \<le> a * 2 ^ 1074" .
  with a0 True have "\<bar>round_below 1074 a - a\<bar> \<le> a / 2 ^ 53" by (rule round_below_accurate)
  with True show ?thesis by simp
next
  case False
  then have "2 ^ 52 \<le> a" by simp
  moreover have "a < 2 ^ 53 * 2 ^ 971" using assms(2) by simp
  ultimately have "\<bar>round_above 971 a - a\<bar> \<le> a / 2 ^ 53" by (rule round_above_accurate)
  with False show ?thesis by simp
qed

lemma double_round_zero: "double_round 0 = 0"
proof -
  have "round_below n 0 = 0" for n
    by (induction n) (simp_all add: round_even_def)
  then show ?thesis by (simp add: double_round_def)
qed

lemma double_round_accurate:
  assumes "in_range x"
  shows "\<bar>double_round x - x\<bar> \<le> unit_roundoff * \<bar>x\<bar>"
proof (cases "x = 0")
  case True
  then show ?thesis by (simp add: double_round_zero)
next
  case False
  define a where "a = \<bar>x\<bar>"
  define d where "d = (if a < 2 ^ 53 then round_below 1074 a else round_above 971 a)"
  from assms False have "1 / 2 ^ 1022 \<le> a" and "a < 2 ^ 1023"
    by (simp_all add: in_range_def a_def)
  then have e: "\<bar>d - a\<bar> \<le> a / 2 ^ 53" unfolding d_def by (rule double_round_abs)
  have r: "double_round x = (if x < 0 then - d else d)"
    by (simp add: double_round_def Let_def d_def a_def)
  show ?thesis
  proof (cases "x < 0")
    case True
    then have "a = - x" by (simp add: a_def)
    with e True r show ?thesis by (simp add: unit_roundoff_def abs_le_iff)
  next
    case False
    then have "a = x" by (simp add: a_def)
    with e False r show ?thesis by (simp add: unit_roundoff_def abs_le_iff)
  qed
qed

lemma double_arith_accurate: "accurate double_arith"
  unfolding accurate_def double_arith_def
  by (simp only: arith.select_convs) (blast intro: double_round_accurate)

lemma round_below_scaled:
  "k \<le> n \<Longrightarrow> 2 ^ 52 \<le> x * 2 ^ k \<Longrightarrow> x * 2 ^ k < 2 ^ 53 \<Longrightarrow>
     round_below n x = of_int (round_even (x * 2 ^ k)) / 2 ^ k"
proof (induction k arbitrary: n x)
  case 0
  then show ?case by (cases n) simp_all
next
  case (Suc k)
  then obtain m where n: "n = Suc m" and km: "k \<le> m" by (cases n) simp_all
  have "(0 :: rat) < 2 ^ 52" by simp
  with Suc.prems(2) have "0 < x * 2 ^ Suc k" by linarith
  then have x0: "0 < x" by (simp add: zero_less_mult_iff)
  have "(1 :: rat) \<le> 2 ^ k" by simp
  then have "2 * x * 1 \<le> 2 * x * 2 ^ k" using x0 by (intro mult_left_mono) simp_all
  with Suc.prems(3) have "x < 2 ^ 52" by simp
  moreover from Suc.prems have "2 ^ 52 \<le> 2 * x * 2 ^ k" and "2 * x * 2 ^ k < 2 ^ 53"
    by (simp_all add: mult.commute mult.left_commute)
  with km have "round_below m (2 * x) = of_int (round_even (2 * x * 2 ^ k)) / 2 ^ k"
    by (rule Suc.IH)
  moreover have "2 * x * 2 ^ k = x * 2 ^ Suc k" by simp
  ultimately have "round_below m (2 * x) = of_int (round_even (x * 2 ^ Suc k)) / 2 ^ k"
    and "x < 2 ^ 52"
    by simp_all
  then show ?case by (simp add: n)
qed

lemma double_round_quotient: "double_round (1024 / 1122) = 8220474186145076 / 2 ^ 53"
proof -
  have "round_below 1074 (1024 / 1122)
          = of_int (round_even (1024 / 1122 * 2 ^ 53)) / 2 ^ 53"
    by (rule round_below_scaled) simp_all
  moreover have "round_even (1024 / 1122 * 2 ^ 53) = 8220474186145076"
    by (rule round_even_eq) simp_all
  ultimately show ?thesis by (simp add: double_round_def Let_def)
qed

lemma double_round_product:
  "double_round (1122 * (8220474186145076 / 2 ^ 53)) = 9007199254740991 / 2 ^ 43"
proof -
  have "round_below 1074 (1122 * (8220474186145076 / 2 ^ 53))
          = of_int (round_even (1122 * (8220474186145076 / 2 ^ 53) * 2 ^ 43)) / 2 ^ 43"
    by (rule round_below_scaled) simp_all
  moreover have "round_even (1122 * (8220474186145076 / 2 ^ 53) * 2 ^ 43) = 9007199254740991"
    by (rule round_even_eq) simp_all
  ultimately show ?thesis by (simp add: double_round_def Let_def)
qed

subsection \<open>The size of the canvas\<close>

lemma two_roundings:
  fixes u S e q p :: rat
  assumes u: "0 \<le> u" and S: "0 \<le> S" and e: "0 \<le> e"
    and q: "\<bar>q - e\<bar> \<le> u * e" and p: "\<bar>p - S * q\<bar> \<le> u * (S * q)"
  shows "\<bar>p - S * e\<bar> \<le> (2 * u + u ^ 2) * (S * e)"
proof -
  from q have q_hi: "q \<le> e + u * e" by linarith
  have "S * q \<le> S * (e + u * e)" using q_hi S by (rule mult_left_mono)
  then have "u * (S * q) \<le> u * (S * (e + u * e))" using u by (rule mult_left_mono)
  with p have a: "\<bar>p - S * q\<bar> \<le> u * (S * (e + u * e))" by linarith
  have "\<bar>S * q - S * e\<bar> = S * \<bar>q - e\<bar>"
    using S by (simp add: right_diff_distrib [symmetric] abs_mult)
  also have "\<dots> \<le> S * (u * e)" using q S by (rule mult_left_mono)
  finally have b: "\<bar>S * q - S * e\<bar> \<le> S * (u * e)" .
  have "\<bar>p - S * e\<bar> \<le> \<bar>p - S * q\<bar> + \<bar>S * q - S * e\<bar>" by linarith
  also have "\<dots> \<le> u * (S * (e + u * e)) + S * (u * e)" using a b by linarith
  also have "\<dots> = (2 * u + u ^ 2) * (S * e)" by (simp add: algebra_simps power2_eq_square)
  finally show ?thesis .
qed

lemma scale_accurate:
  assumes acc: "accurate ar" and l: "1024 < l" and l32: "l < 2 ^ 32" and s32: "s < 2 ^ 32"
  shows "\<bar>num_mul ar (of_nat s) (num_div ar 1024 (of_nat l)) - of_nat s * (1024 / of_nat l)\<bar>
           \<le> (2 * unit_roundoff + unit_roundoff ^ 2) * (of_nat s * (1024 / of_nat l))"
proof -
  define u where "u = unit_roundoff"
  define L :: rat where "L = of_nat l"
  define S :: rat where "S = of_nat s"
  define e where "e = 1024 / L"
  define q where "q = num_div ar 1024 L"
  define p where "p = num_mul ar S q"
  have u0: "0 < u" and u1: "u \<le> 1 / 2" using unit_roundoff_bounds by (simp_all add: u_def)
  have L: "1024 < L" using l by (simp add: L_def)
  have L32: "L < 2 ^ 32"
    unfolding L_def using l32 by (metis of_nat_less_iff of_nat_numeral of_nat_power)
  have S0: "0 \<le> S" by (simp add: S_def)
  have S32: "S < 2 ^ 32"
    unfolding S_def using s32 by (metis of_nat_less_iff of_nat_numeral of_nat_power)
  have e_hi: "e < 1" using L by (simp add: e_def)
  have e_lo: "1 / 4194304 < e" using L L32 by (simp add: e_def field_simps)
  have e0: "0 < e" using L by (simp add: e_def)
  have "(1 :: rat) / 2 ^ 40 \<le> 1 / 4194304" and "(1 :: rat) \<le> 2 ^ 40" by simp_all
  then have "1 / 2 ^ 40 \<le> \<bar>e\<bar>" and "\<bar>e\<bar> \<le> 2 ^ 40"
    using e_lo e_hi e0 by linarith+
  then have "in_range e" by (rule in_range_between)
  then have re: "in_range (1024 / L)" by (simp only: e_def)
  have "L \<noteq> 0" using L by simp
  then have "\<bar>num_div ar 1024 L - 1024 / L\<bar> \<le> unit_roundoff * \<bar>1024 / L\<bar>"
    using re by (rule accurate_div [OF acc])
  then have q: "\<bar>q - e\<bar> \<le> u * e"
    using e0 by (simp add: q_def e_def u_def)
  have "u * e \<le> 1 / 2 * e" using u1 e0 by (intro mult_right_mono) simp_all
  with q have q_lo: "e / 2 \<le> q" and q_hi: "q \<le> e + e / 2" by linarith+
  have q0: "0 < q" using q_lo e0 by linarith
  have Sq0: "0 \<le> S * q" using S0 q0 by simp
  have r: "in_range (S * q)"
  proof (cases "s = 0")
    case True
    then show ?thesis by (simp add: in_range_zero S_def)
  next
    case False
    then have S1: "1 \<le> S" by (simp add: S_def)
    from q_lo e_lo have ql: "1 / 8388608 \<le> q" by linarith
    have "1 * (1 / 8388608) \<le> S * q"
      using S1 ql by (rule mult_mono) (use S0 in simp_all)
    then have lo: "1 / 8388608 \<le> S * q" by simp
    have q2: "q \<le> 2" using q_hi e_hi by linarith
    have "S * q \<le> 2 ^ 32 * 2"
      using S32 q2 q0 S0 by (intro mult_mono) simp_all
    moreover have "(1 :: rat) / 2 ^ 40 \<le> 1 / 8388608" and "(2 :: rat) ^ 32 * 2 \<le> 2 ^ 40"
      by simp_all
    ultimately have "1 / 2 ^ 40 \<le> \<bar>S * q\<bar>" and "\<bar>S * q\<bar> \<le> 2 ^ 40"
      using lo Sq0 by linarith+
    then show ?thesis by (rule in_range_between)
  qed
  have "\<bar>num_mul ar S q - S * q\<bar> \<le> unit_roundoff * \<bar>S * q\<bar>"
    using acc r by (rule accurate_mul)
  then have p: "\<bar>p - S * q\<bar> \<le> u * (S * q)"
    using Sq0 by (simp add: p_def u_def)
  have "\<bar>p - S * e\<bar> \<le> (2 * u + u ^ 2) * (S * e)"
    using u0 S0 e0 q p by (intro two_roundings) simp_all
  then show ?thesis
    by (simp only: p_def q_def e_def S_def L_def u_def)
qed

lemma unat_32_bound: "unat (w :: 32 word) < 2 ^ 32"
  using unsigned_less [of w] by simp

text \<open>
  Cutting the fraction off a scaled edge \<open>p\<close> that is as accurate as doubles make it: the
  result \<open>n\<close> has \<open>n \<le> s * 1024 / l \<le> n + 1\<close>, for edges below \<open>2 ^ 32\<close>.
\<close>

lemma truncated_edge:
  fixes p :: rat
  assumes l: "0 < l" and s32: "s < 2 ^ 32"
    and err: "\<bar>p - of_nat s * (1024 / of_nat l)\<bar>
                \<le> (2 * unit_roundoff + unit_roundoff ^ 2) * (of_nat s * (1024 / of_nat l))"
  shows "nat \<lfloor>p\<rfloor> * l \<le> 1024 * s \<and> 1024 * s \<le> (nat \<lfloor>p\<rfloor> + 1) * l"
proof -
  define L :: rat where "L = of_nat l"
  define S :: rat where "S = of_nat s"
  define x where "x = S * (1024 / L)"
  define d where "d = (2 * unit_roundoff + unit_roundoff ^ 2) * x"
  define n where "n = nat \<lfloor>p\<rfloor>"
  have L0: "0 < L" using l by (simp add: L_def)
  have S0: "0 \<le> S" by (simp add: S_def)
  have S32: "S < 2 ^ 32"
    unfolding S_def using s32 by (metis of_nat_less_iff of_nat_numeral of_nat_power)
  have x0: "0 \<le> x" using L0 S0 by (simp add: x_def)
  have xL: "x * L = 1024 * S" using L0 by (simp add: x_def)
  have c: "2 * unit_roundoff + unit_roundoff ^ 2 = 18014398509481985 / 81129638414606681695789005144064"
    by (simp add: unit_roundoff_def power2_eq_square)
  have c_hi: "2 * unit_roundoff + unit_roundoff ^ 2 \<le> 1 / 2 ^ 51"
    unfolding c by simp
  have c0: "0 \<le> 2 * unit_roundoff + unit_roundoff ^ 2"
    unfolding c by simp
  have d0: "0 \<le> d" using c0 x0 by (simp add: d_def)
  have "d * L = (2 * unit_roundoff + unit_roundoff ^ 2) * (1024 * S)"
    using xL by (simp add: d_def mult.assoc)
  also have "\<dots> \<le> 1 / 2 ^ 51 * (1024 * S)"
    using c_hi S0 by (intro mult_right_mono) simp_all
  also have "\<dots> < 1 / 2 ^ 51 * (1024 * 2 ^ 32)"
    using S32 by simp
  also have "\<dots> \<le> 1" by simp
  finally have dL: "d * L < 1" .
  have "d \<le> 1 / 2 ^ 51 * x" using c_hi x0 unfolding d_def by (intro mult_right_mono) simp_all
  also have "\<dots> \<le> x" using x0 by (simp add: field_simps)
  finally have dx: "d \<le> x" .
  from err have lo: "x - d \<le> p" and hi: "p \<le> x + d"
    by (simp_all add: x_def d_def S_def L_def abs_le_iff algebra_simps)
  have p0: "0 \<le> p" using lo dx by linarith
  then have np: "of_nat n = (of_int \<lfloor>p\<rfloor> :: rat)" by (simp add: n_def)
  have n_le: "of_nat n \<le> p" unfolding np by (rule of_int_floor_le)
  have n_gt: "p < of_nat n + 1" unfolding np using floor_correct [of p] by linarith
  have "of_nat n * L \<le> (x + d) * L"
    using n_le hi L0 by (intro mult_right_mono) linarith+
  also have "\<dots> = 1024 * S + d * L" using xL by (simp add: algebra_simps)
  also have "\<dots> < 1024 * S + 1" using dL by simp
  finally have "(of_nat (n * l) :: rat) < of_nat (1024 * s + 1)"
    by (simp add: L_def S_def)
  then have "n * l < 1024 * s + 1" by (simp only: of_nat_less_iff)
  then have a: "n * l \<le> 1024 * s" by simp
  have "1024 * S = x * L" using xL by simp
  also have "\<dots> \<le> (p + d) * L" using lo L0 by (intro mult_right_mono) linarith+
  also have "\<dots> = p * L + d * L" by (simp add: algebra_simps)
  also have "\<dots> < (of_nat n + 1) * L + 1"
    using n_gt dL L0 by (intro add_strict_mono mult_strict_right_mono)
  finally have "(of_nat (1024 * s) :: rat) < of_nat ((n + 1) * l + 1)"
    by (simp add: L_def S_def algebra_simps)
  then have "1024 * s < (n + 1) * l + 1" by (simp only: of_nat_less_iff)
  then have b: "1024 * s \<le> (n + 1) * l" by simp
  from a b show ?thesis by (simp only: n_def)
qed

lemma scaled_edge:
  assumes acc: "accurate ar" and l: "1024 < l" and l32: "l < 2 ^ 32" and s32: "s < 2 ^ 32"
  shows "nat \<lfloor>num_mul ar (of_nat s) (num_div ar 1024 (of_nat l))\<rfloor> * l \<le> 1024 * s \<and>
         1024 * s \<le> (nat \<lfloor>num_mul ar (of_nat s) (num_div ar 1024 (of_nat l))\<rfloor> + 1) * l"
proof -
  from l have "0 < l" by simp
  then show ?thesis
    using s32 scale_accurate [OF acc l l32 s32] by (rule truncated_edge)
qed

text \<open>
  An image of 1025 by 1 pixels gets a canvas without height, whatever the rounding of the
  doubles.
\<close>

lemma thin_image:
  assumes "accurate ar"
  shows "canvas_size (scaled_size ar 1025 1) = (1024, 0)"
proof -
  have "(1024 :: nat) < 1025" and "(1025 :: nat) < 2 ^ 32" and "(1 :: nat) < 2 ^ 32" by simp_all
  from scaled_edge [OF assms this]
  have "nat \<lfloor>num_mul ar 1 (num_div ar 1024 1025)\<rfloor> * 1025 \<le> 1024" by simp
  then have "nat \<lfloor>num_mul ar 1 (num_div ar 1024 1025)\<rfloor> = 0" by linarith
  then show ?thesis
    by (simp add: canvas_size_def scaled_size_def MAX_SIZE_def Let_def)
qed

text \<open>
  A square image of 1122 by 1122 pixels: in doubles 1024 / 1122 times 1122 is just below
  1024, and the canvas is 1023 wide and 1024 high.
\<close>

lemma square_image:
  "scaled_size double_arith 1122 1122 = (9007199254740991 / 2 ^ 43, 1024) \<and>
   canvas_size (scaled_size double_arith 1122 1122) = (1023, 1024)"
proof -
  have "scaled_size double_arith 1122 1122
          = (double_round (1122 * double_round (1024 / 1122)), 1024)"
    by (simp add: scaled_size_def MAX_SIZE_def Let_def double_arith_def)
  then have s: "scaled_size double_arith 1122 1122 = (9007199254740991 / 2 ^ 43, 1024)"
    by (simp only: double_round_quotient double_round_product)
  have "\<lfloor>9007199254740991 / 2 ^ 43 :: rat\<rfloor> = 1023" by (simp add: floor_eq_iff)
  with s show ?thesis by (simp add: canvas_size_def)
qed

text \<open>
  C9, as stated, fails: the shorter edge is cut down to a whole number of pixels, so the
  aspect ratio is not kept. In doubles, an image of 1025 by 1 pixels gets a canvas that is
  1024 wide and 0 high, and a square image of 1122 by 1122 pixels gets a canvas that is
  1023 wide and 1024 high.
\<close>

theorem scaled_size_counterexample:
  "1024 < max (unat (1025 :: 32 word)) (unat (1 :: 32 word)) \<and>
   canvas_size (scaled_size double_arith 1025 1) = (1024, 0) \<and>
   1024 < max (unat (1122 :: 32 word)) (unat (1122 :: 32 word)) \<and>
   canvas_size (scaled_size double_arith 1122 1122) = (1023, 1024)"
  using thin_image [OF double_arith_accurate] square_image [THEN conjunct2] by simp

text \<open>
  C9, amended. An image whose longer edge is at most 1024 keeps its width and height, on
  the canvas too. For an image whose longer edge exceeds 1024, that edge becomes exactly
  1024, on the canvas too. Its other edge is scaled by the same factor, up to the rounding
  error of one division and one multiplication of doubles, and the canvas cuts the
  fraction off: the shorter edge of the canvas is the whole number \<open>n\<close> of pixels with
  \<open>n \<le> s * 1024 / l \<le> n + 1\<close>, where \<open>l\<close> is the longer and \<open>s\<close> the shorter edge of the
  image. So it is the proportional length rounded down, or one pixel less than a
  proportional length that is a whole number.
\<close>

theorem scaled_size_correct:
  assumes acc: "accurate ar"
  shows
  "(max (unat w) (unat h) \<le> 1024 \<longrightarrow>
      scaled_size ar w h = (of_nat (unat w), of_nat (unat h)) \<and>
      canvas_size (scaled_size ar w h) = (unat w, unat h)) \<and>
   (1024 < max (unat w) (unat h) \<and> unat h < unat w \<longrightarrow>
      fst (scaled_size ar w h) = 1024 \<and>
      fst (canvas_size (scaled_size ar w h)) = 1024 \<and>
      \<bar>snd (scaled_size ar w h) - of_nat (unat h) * (1024 / of_nat (unat w))\<bar>
        \<le> (2 * unit_roundoff + unit_roundoff ^ 2)
            * (of_nat (unat h) * (1024 / of_nat (unat w))) \<and>
      snd (canvas_size (scaled_size ar w h)) * unat w \<le> 1024 * unat h \<and>
      1024 * unat h \<le> (snd (canvas_size (scaled_size ar w h)) + 1) * unat w) \<and>
   (1024 < max (unat w) (unat h) \<and> unat w \<le> unat h \<longrightarrow>
      snd (scaled_size ar w h) = 1024 \<and>
      snd (canvas_size (scaled_size ar w h)) = 1024 \<and>
      \<bar>fst (scaled_size ar w h) - of_nat (unat w) * (1024 / of_nat (unat h))\<bar>
        \<le> (2 * unit_roundoff + unit_roundoff ^ 2)
            * (of_nat (unat w) * (1024 / of_nat (unat h))) \<and>
      fst (canvas_size (scaled_size ar w h)) * unat h \<le> 1024 * unat w \<and>
      1024 * unat w \<le> (fst (canvas_size (scaled_size ar w h)) + 1) * unat h)"
proof -
  define W where "W = unat w"
  define H where "H = unat h"
  define sz where "sz = scaled_size ar w h"
  have W32: "W < 2 ^ 32" and H32: "H < 2 ^ 32"
    unfolding W_def H_def by (rule unat_32_bound)+
  have sz: "sz = (if (of_nat W :: rat) > of_nat H then
                    (if (of_nat W :: rat) > 1024
                     then (1024, num_mul ar (of_nat H) (num_div ar 1024 (of_nat W)))
                     else (of_nat W, of_nat H))
                  else
                    (if (of_nat H :: rat) > 1024
                     then (num_mul ar (of_nat W) (num_div ar 1024 (of_nat H)), 1024)
                     else (of_nat W, of_nat H)))"
    unfolding sz_def scaled_size_def MAX_SIZE_def Let_def W_def H_def by (rule refl)
  have small: "sz = (of_nat W, of_nat H) \<and> canvas_size sz = (W, H)" if "max W H \<le> 1024"
  proof -
    from that have "W \<le> 1024" and "H \<le> 1024" by simp_all
    then have "sz = (of_nat W, of_nat H)" by (simp add: sz)
    then show ?thesis by (simp add: canvas_size_def)
  qed
  have wide: "fst sz = 1024 \<and> fst (canvas_size sz) = 1024 \<and>
              \<bar>snd sz - of_nat H * (1024 / of_nat W)\<bar>
                \<le> (2 * unit_roundoff + unit_roundoff ^ 2) * (of_nat H * (1024 / of_nat W)) \<and>
              snd (canvas_size sz) * W \<le> 1024 * H \<and>
              1024 * H \<le> (snd (canvas_size sz) + 1) * W"
    if "1024 < max W H \<and> H < W"
  proof -
    from that have wh: "H < W" and big: "1024 < W" by (simp_all add: max_def split: if_splits)
    then have s: "sz = (1024, num_mul ar (of_nat H) (num_div ar 1024 (of_nat W)))"
      by (simp add: sz)
    from s scale_accurate [OF acc big W32 H32] scaled_edge [OF acc big W32 H32] show ?thesis
      by (simp add: canvas_size_def)
  qed
  have tall: "snd sz = 1024 \<and> snd (canvas_size sz) = 1024 \<and>
              \<bar>fst sz - of_nat W * (1024 / of_nat H)\<bar>
                \<le> (2 * unit_roundoff + unit_roundoff ^ 2) * (of_nat W * (1024 / of_nat H)) \<and>
              fst (canvas_size sz) * H \<le> 1024 * W \<and>
              1024 * W \<le> (fst (canvas_size sz) + 1) * H"
    if "1024 < max W H \<and> W \<le> H"
  proof -
    from that have wh: "W \<le> H" and big: "1024 < H" by (simp_all add: max_def split: if_splits)
    then have s: "sz = (num_mul ar (of_nat W) (num_div ar 1024 (of_nat H)), 1024)"
      by (simp add: sz)
    from s scale_accurate [OF acc big H32 W32] scaled_edge [OF acc big H32 W32] show ?thesis
      by (simp add: canvas_size_def)
  qed
  from small wide tall
  have "(max W H \<le> 1024 \<longrightarrow> sz = (of_nat W, of_nat H) \<and> canvas_size sz = (W, H)) \<and>
        (1024 < max W H \<and> H < W \<longrightarrow>
           fst sz = 1024 \<and> fst (canvas_size sz) = 1024 \<and>
           \<bar>snd sz - of_nat H * (1024 / of_nat W)\<bar>
             \<le> (2 * unit_roundoff + unit_roundoff ^ 2) * (of_nat H * (1024 / of_nat W)) \<and>
           snd (canvas_size sz) * W \<le> 1024 * H \<and>
           1024 * H \<le> (snd (canvas_size sz) + 1) * W) \<and>
        (1024 < max W H \<and> W \<le> H \<longrightarrow>
           snd sz = 1024 \<and> snd (canvas_size sz) = 1024 \<and>
           \<bar>fst sz - of_nat W * (1024 / of_nat H)\<bar>
             \<le> (2 * unit_roundoff + unit_roundoff ^ 2) * (of_nat W * (1024 / of_nat H)) \<and>
           fst (canvas_size sz) * H \<le> 1024 * W \<and>
           1024 * W \<le> (fst (canvas_size sz) + 1) * H)"
    by blast
  then show ?thesis unfolding W_def H_def sz_def .
qed

text \<open>
  The theorem at three images: 800 by 600 is kept and 600 by 1200 becomes 512 by 1024, in
  exact arithmetic, and 3000 by 2000 becomes 1024 by 682 in doubles.
\<close>

theorem scaled_size_correct_witness:
  "accurate exact_arith \<and>
   accurate double_arith \<and>
   max (unat (800 :: 32 word)) (unat (600 :: 32 word)) \<le> 1024 \<and>
   canvas_size (scaled_size exact_arith 800 600) = (800, 600) \<and>
   1024 < max (unat (3000 :: 32 word)) (unat (2000 :: 32 word)) \<and>
   unat (2000 :: 32 word) < unat (3000 :: 32 word) \<and>
   fst (canvas_size (scaled_size double_arith 3000 2000)) = 1024 \<and>
   snd (canvas_size (scaled_size double_arith 3000 2000)) = 682 \<and>
   1024 < max (unat (600 :: 32 word)) (unat (1200 :: 32 word)) \<and>
   unat (600 :: 32 word) \<le> unat (1200 :: 32 word) \<and>
   fst (canvas_size (scaled_size exact_arith 600 1200)) = 512 \<and>
   snd (canvas_size (scaled_size exact_arith 600 1200)) = 1024"
proof -
  have a: "max (unat (800 :: 32 word)) (unat (600 :: 32 word)) \<le> 1024" by simp
  have b: "1024 < max (unat (3000 :: 32 word)) (unat (2000 :: 32 word)) \<and>
           unat (2000 :: 32 word) < unat (3000 :: 32 word)"
    by simp
  have c: "1024 < max (unat (600 :: 32 word)) (unat (1200 :: 32 word)) \<and>
           unat (600 :: 32 word) \<le> unat (1200 :: 32 word)"
    by simp
  from scaled_size_correct [OF exact_arith_accurate, of 800 600] a
  have "canvas_size (scaled_size exact_arith 800 600) = (unat (800 :: 32 word), unat (600 :: 32 word))"
    by blast
  then have r1: "canvas_size (scaled_size exact_arith 800 600) = (800, 600)" by simp
  define n where "n = snd (canvas_size (scaled_size double_arith 3000 2000))"
  from scaled_size_correct [OF double_arith_accurate, of 3000 2000] b
  have r2: "fst (canvas_size (scaled_size double_arith 3000 2000)) = 1024"
    and "n * unat (3000 :: 32 word) \<le> 1024 * unat (2000 :: 32 word)"
    and "1024 * unat (2000 :: 32 word) \<le> (n + 1) * unat (3000 :: 32 word)"
    unfolding n_def by blast+
  then have lo: "n * 3000 \<le> 2048000" and hi: "2048000 \<le> (n + 1) * 3000" by simp_all
  from lo have "n \<le> 682" by linarith
  moreover from hi have "2048000 \<le> n * 3000 + 3000" by (simp add: algebra_simps)
  then have "\<not> n \<le> 681" by linarith
  ultimately have "n = 682" by simp
  then have r3: "snd (canvas_size (scaled_size double_arith 3000 2000)) = 682" by (simp only: n_def)
  define m where "m = fst (canvas_size (scaled_size exact_arith 600 1200))"
  from scaled_size_correct [OF exact_arith_accurate, of 600 1200] c
  have r4: "snd (canvas_size (scaled_size exact_arith 600 1200)) = 1024"
    and "m * unat (1200 :: 32 word) \<le> 1024 * unat (600 :: 32 word)"
    and "1024 * unat (600 :: 32 word) \<le> (m + 1) * unat (1200 :: 32 word)"
    unfolding m_def by blast+
  have "m = 512"
    by (simp add: m_def canvas_size_def scaled_size_def exact_arith_def MAX_SIZE_def Let_def)
  then have r5: "fst (canvas_size (scaled_size exact_arith 600 1200)) = 512"
    by (simp only: m_def)
  from exact_arith_accurate double_arith_accurate a r1 b r2 r3 c r4 r5 show ?thesis by blast
qed

end
